theory Spec2Isabelle
  imports Main "HOL-Library.Sublist" "HOL-Library.Char_ord" "HOL-Library.List_Lexorder"
begin

section \<open>The values of the script language\<close>

text \<open>
  The client is a browser script: \<^verbatim>\<open>src/frontend/app.js\<close> and, with another base
  address, \<^verbatim>\<open>src/unnamed/part_000\<close>. Its data are the values that
  \<^verbatim>\<open>JSON.parse\<close> yields of a response body, the strings of form fields, and the
  numbers that \<^verbatim>\<open>Number(...)\<close> makes of such strings.

  Numbers are the integers and \<^verbatim>\<open>NaN\<close>: the backend's numbers are identifiers and
  counters. Fractions, infinities and the precision of doubles are outside the model.
  Strings are lists of bytes, and white space is the white space of ASCII.
\<close>

datatype jsnum = NaN | Fin int

datatype jsval =
    JUndefined
  | JNull
  | JBool bool
  | JNum jsnum
  | JStr string
  | JArr "jsval list"
  | JObj "(string \<times> jsval) list"

datatype error =
    Error string      \<comment> \<open>\<^verbatim>\<open>new Error(message)\<close>, thrown by \<^verbatim>\<open>api\<close>\<close>
  | TypeError         \<comment> \<open>a property of \<^verbatim>\<open>null\<close> or \<^verbatim>\<open>undefined\<close>, a call of a non-function\<close>
  | SyntaxError       \<comment> \<open>\<^verbatim>\<open>res.json()\<close> on a body that is not JSON\<close>
  | NetworkError      \<comment> \<open>the rejection of \<^verbatim>\<open>fetch\<close> itself\<close>

subsection \<open>Strings\<close>

definition is_space :: "char \<Rightarrow> bool" where
  "is_space c = (c \<in> set [CHR 0x09, CHR 0x0A, CHR 0x0B, CHR 0x0C, CHR 0x0D, CHR '' ''])"

text \<open>\<^verbatim>\<open>s.trim()\<close>\<close>

definition trim :: "string \<Rightarrow> string" where
  "trim s = rev (dropWhile is_space (rev (dropWhile is_space s)))"

text \<open>\<^verbatim>\<open>s.includes(sub)\<close>\<close>

fun str_includes :: "string \<Rightarrow> string \<Rightarrow> bool" where
  "str_includes [] sub = (sub = [])"
| "str_includes (c # cs) sub = (prefix sub (c # cs) \<or> str_includes cs sub)"

definition digit_char :: "nat \<Rightarrow> char" where
  "digit_char n = ''0123456789'' ! n"

function show_nat :: "nat \<Rightarrow> string" where
  "show_nat n = (if n < 10 then [digit_char n] else show_nat (n div 10) @ [digit_char (n mod 10)])"
  by pat_completeness auto
termination
  by (relation "measure id") auto

declare show_nat.simps [simp del]

definition show_int :: "int \<Rightarrow> string" where
  "show_int i = (if i < 0 then CHR ''-'' # show_nat (nat (- i)) else show_nat (nat i))"

definition digit_val :: "char \<Rightarrow> nat option" where
  "digit_val c = map_of (zip ''0123456789'' [0, 1, 2, 3, 4, 5, 6, 7, 8, 9]) c"

fun parse_digits :: "nat \<Rightarrow> string \<Rightarrow> nat option" where
  "parse_digits acc [] = Some acc"
| "parse_digits acc (c # cs) =
     (case digit_val c of None \<Rightarrow> None | Some v \<Rightarrow> parse_digits (10 * acc + v) cs)"

definition parse_nat :: "string \<Rightarrow> nat option" where
  "parse_nat s = (if s = [] then None else parse_digits 0 s)"

text \<open>
  \<^verbatim>\<open>Number(s)\<close> of a string: white space is trimmed, the empty string is 0, a decimal
  integer with an optional sign is its value, and everything else is \<^verbatim>\<open>NaN\<close>.
\<close>

definition string_to_number :: "string \<Rightarrow> jsnum" where
  "string_to_number s =
     (case trim s of
        [] \<Rightarrow> Fin 0
      | c # cs \<Rightarrow>
          if c = CHR ''-'' then (case parse_nat cs of None \<Rightarrow> NaN | Some n \<Rightarrow> Fin (- int n))
          else if c = CHR ''+'' then (case parse_nat cs of None \<Rightarrow> NaN | Some n \<Rightarrow> Fin (int n))
          else (case parse_nat (c # cs) of None \<Rightarrow> NaN | Some n \<Rightarrow> Fin (int n)))"

subsection \<open>Conversions and operators\<close>

definition num_to_string :: "jsnum \<Rightarrow> string" where
  "num_to_string n = (case n of NaN \<Rightarrow> ''NaN'' | Fin i \<Rightarrow> show_int i)"

text \<open>
  \<^verbatim>\<open>String(v)\<close>, which a template literal applies to each \<^verbatim>\<open>${...}\<close>. An array joins
  its elements with commas, \<^verbatim>\<open>null\<close> and \<^verbatim>\<open>undefined\<close> elements as empty strings.
\<close>

fun to_string :: "jsval \<Rightarrow> string" and join_elems :: "jsval list \<Rightarrow> string" where
  "to_string JUndefined = ''undefined''"
| "to_string JNull = ''null''"
| "to_string (JBool b) = (if b then ''true'' else ''false'')"
| "to_string (JNum n) = num_to_string n"
| "to_string (JStr s) = s"
| "to_string (JArr xs) = join_elems xs"
| "to_string (JObj fs) = ''[object Object]''"
| "join_elems [] = []"
| "join_elems (x # xs) =
     (if x = JUndefined \<or> x = JNull then [] else to_string x)
     @ (if xs = [] then [] else CHR '','' # join_elems xs)"

text \<open>The truth value that \<^verbatim>\<open>if (v)\<close>, \<^verbatim>\<open>!v\<close>, \<^verbatim>\<open>v || w\<close> and \<^verbatim>\<open>v ? a : b\<close> take of \<open>v\<close>.\<close>

fun num_truthy :: "jsnum \<Rightarrow> bool" where
  "num_truthy NaN = False"
| "num_truthy (Fin i) = (i \<noteq> 0)"

fun truthy :: "jsval \<Rightarrow> bool" where
  "truthy JUndefined = False"
| "truthy JNull = False"
| "truthy (JBool b) = b"
| "truthy (JNum n) = num_truthy n"
| "truthy (JStr s) = (s \<noteq> [])"
| "truthy (JArr xs) = True"
| "truthy (JObj fs) = True"

text \<open>An object or an array becomes a primitive through its \<^verbatim>\<open>toString\<close>.\<close>

fun to_primitive :: "jsval \<Rightarrow> jsval" where
  "to_primitive (JArr xs) = JStr (to_string (JArr xs))"
| "to_primitive (JObj fs) = JStr (to_string (JObj fs))"
| "to_primitive v = v"

text \<open>\<^verbatim>\<open>Number(v)\<close>\<close>

fun to_number :: "jsval \<Rightarrow> jsnum" where
  "to_number JUndefined = NaN"
| "to_number JNull = Fin 0"
| "to_number (JBool b) = (if b then Fin 1 else Fin 0)"
| "to_number (JNum n) = n"
| "to_number (JStr s) = string_to_number s"
| "to_number (JArr xs) = string_to_number (to_string (JArr xs))"
| "to_number (JObj fs) = string_to_number (to_string (JObj fs))"

fun is_string :: "jsval \<Rightarrow> bool" where
  "is_string (JStr s) = True"
| "is_string v = False"

text \<open>\<^verbatim>\<open>a > b\<close>: two strings are compared as strings, anything else as numbers.\<close>

definition js_gt :: "jsval \<Rightarrow> jsval \<Rightarrow> bool" where
  "js_gt a b =
     (let p = to_primitive a; q = to_primitive b in
      if is_string p \<and> is_string q then to_string q < to_string p
      else (case (to_number p, to_number q) of
              (Fin x, Fin y) \<Rightarrow> y < x
            | _ \<Rightarrow> False))"

text \<open>
  \<^verbatim>\<open>a === b\<close>. Two objects or arrays are equal only when they are the same object, and
  two values read from different places of one parsed body never are.
\<close>

fun strict_eq :: "jsval \<Rightarrow> jsval \<Rightarrow> bool" where
  "strict_eq JUndefined JUndefined = True"
| "strict_eq JNull JNull = True"
| "strict_eq (JBool a) (JBool b) = (a = b)"
| "strict_eq (JNum (Fin a)) (JNum (Fin b)) = (a = b)"
| "strict_eq (JStr a) (JStr b) = (a = b)"
| "strict_eq a b = False"

text \<open>\<^verbatim>\<open>a + b\<close>: concatenation when either side is a string, the sum otherwise.\<close>

definition js_add :: "jsval \<Rightarrow> jsval \<Rightarrow> jsval" where
  "js_add a b =
     (let p = to_primitive a; q = to_primitive b in
      if is_string p \<or> is_string q then JStr (to_string p @ to_string q)
      else (case (to_number p, to_number q) of
              (Fin x, Fin y) \<Rightarrow> JNum (Fin (x + y))
            | _ \<Rightarrow> JNum NaN))"

text \<open>
  \<^verbatim>\<open>v.name\<close>: a \<^verbatim>\<open>TypeError\<close> on \<^verbatim>\<open>null\<close> and \<^verbatim>\<open>undefined\<close>, the field of an object,
  the \<^verbatim>\<open>length\<close> of a string or an array, and \<^verbatim>\<open>undefined\<close> otherwise. The names that
  the script reads are names of the backend's fields and \<^verbatim>\<open>length\<close>; none of them is
  a method.
\<close>

fun get :: "jsval \<Rightarrow> string \<Rightarrow> error + jsval" where
  "get JUndefined name = Inl TypeError"
| "get JNull name = Inl TypeError"
| "get (JObj fs) name = (case map_of fs name of None \<Rightarrow> Inr JUndefined | Some v \<Rightarrow> Inr v)"
| "get (JStr s) name = (if name = ''length'' then Inr (JNum (Fin (int (length s)))) else Inr JUndefined)"
| "get (JArr xs) name = (if name = ''length'' then Inr (JNum (Fin (int (length xs)))) else Inr JUndefined)"
| "get v name = Inr JUndefined"

text \<open>The same read where the value is known to be neither \<^verbatim>\<open>null\<close> nor \<^verbatim>\<open>undefined\<close>.\<close>

definition field :: "jsval \<Rightarrow> string \<Rightarrow> jsval" where
  "field v name = (case get v name of Inl e \<Rightarrow> JUndefined | Inr x \<Rightarrow> x)"

text \<open>
  The value that \<^verbatim>\<open>a || b\<close> has, and the string that the setters of the page take
  of a value: \<^verbatim>\<open>textContent\<close> reads \<^verbatim>\<open>null\<close> and \<^verbatim>\<open>undefined\<close> as the empty
  string, the \<^verbatim>\<open>value\<close> of a form field reads \<^verbatim>\<open>null\<close> so, and \<^verbatim>\<open>dataset\<close> and
  the \<^verbatim>\<open>value\<close> of an option convert with \<^verbatim>\<open>String\<close>.
\<close>

definition js_or :: "jsval \<Rightarrow> jsval \<Rightarrow> jsval" where
  "js_or a b = (if truthy a then a else b)"

definition as_textContent :: "jsval \<Rightarrow> string" where
  "as_textContent v = (if v = JNull \<or> v = JUndefined then [] else to_string v)"

definition as_value :: "jsval \<Rightarrow> string" where
  "as_value v = (if v = JNull then [] else to_string v)"

subsection \<open>Query strings\<close>

text \<open>
  \<^verbatim>\<open>new URLSearchParams({...}).toString()\<close>: the pairs \<^verbatim>\<open>name=value\<close> joined by
  \<^verbatim>\<open>&\<close>, each byte outside letters, digits and \<^verbatim>\<open>*-._\<close> written \<^verbatim>\<open>%HH\<close> and a
  space written \<^verbatim>\<open>+\<close>.
\<close>

definition hex_char :: "nat \<Rightarrow> char" where
  "hex_char n = ''0123456789ABCDEF'' ! n"

definition form_keep :: "char \<Rightarrow> bool" where
  "form_keep c =
     ((CHR ''a'' \<le> c \<and> c \<le> CHR ''z'') \<or> (CHR ''A'' \<le> c \<and> c \<le> CHR ''Z'')
      \<or> (CHR ''0'' \<le> c \<and> c \<le> CHR ''9'') \<or> c \<in> set ''*-._'')"

definition form_encode_byte :: "char \<Rightarrow> string" where
  "form_encode_byte c =
     (if form_keep c then [c]
      else if c = CHR '' '' then ''+''
      else [CHR ''%'', hex_char (of_char c div 16), hex_char (of_char c mod 16)])"

definition form_encode :: "string \<Rightarrow> string" where
  "form_encode s = concat (map form_encode_byte s)"

fun URLSearchParams :: "(string \<times> string) list \<Rightarrow> string" where
  "URLSearchParams [] = []"
| "URLSearchParams ((k, v) # ps) =
     form_encode k @ ''='' @ form_encode v
     @ (if ps = [] then [] else CHR ''&'' # URLSearchParams ps)"

section \<open>The network\<close>

text \<open>
  A response as \<^verbatim>\<open>fetch\<close> resolves to it. \<open>body_json\<close> is what \<^verbatim>\<open>JSON.parse\<close>
  makes of the body, \<open>None\<close> where it raises. A request keeps the value that was given
  to \<^verbatim>\<open>JSON.stringify\<close> for its body.
\<close>

record response =
  status :: nat
  content_type :: "string option"
  body_text :: string
  body_json :: "jsval option"

definition ok :: "response \<Rightarrow> bool" where
  "ok res = (200 \<le> status res \<and> status res \<le> 299)"

datatype outcome = Rejected | Responded response

datatype body = NoBody | JsonBody jsval | FormData "(string \<times> string) list"

record opts =
  http_method :: string
  headers :: "(string \<times> string) list"
  body :: body

text \<open>\<^verbatim>\<open>opts={}\<close>: \<^verbatim>\<open>fetch\<close> sends a GET without a body.\<close>

definition no_opts :: opts where
  "no_opts = \<lparr>http_method = ''GET'', headers = [], body = NoBody\<rparr>"

definition post_json :: "jsval \<Rightarrow> opts" where
  "post_json v =
     \<lparr>http_method = ''POST'', headers = [(''Content-Type'', ''application/json'')],
      body = JsonBody v\<rparr>"

text \<open>
  The backend is a script of outcomes, taken in the order of the requests; \<open>sent\<close> is
  the log of the requests made, each with its address. A request beyond the end of the
  script is rejected.
\<close>

record world =
  pending :: "outcome list"
  sent :: "(string \<times> opts) list"

definition fetch :: "string \<Rightarrow> opts \<Rightarrow> world \<Rightarrow> (error + response) \<times> world" where
  "fetch u opts w =
     (case pending w of
        [] \<Rightarrow> (Inl NetworkError, w\<lparr>sent := sent w @ [(u, opts)]\<rparr>)
      | Rejected # rest \<Rightarrow> (Inl NetworkError, \<lparr>pending = rest, sent = sent w @ [(u, opts)]\<rparr>)
      | Responded res # rest \<Rightarrow> (Inr res, \<lparr>pending = rest, sent = sent w @ [(u, opts)]\<rparr>))"

text \<open>
  What differs between the two files, and what the browser adds:
  \<^verbatim>\<open>const API\<close> and the rendering of \<^verbatim>\<open>new Date(s).toLocaleString()\<close>.
\<close>

record env =
  API :: string
  toLocaleString :: "string \<Rightarrow> string"

text \<open>\<^verbatim>\<open>res.headers.get("content-type")?.includes("application/json")\<close>\<close>

definition declares_json :: "response \<Rightarrow> bool" where
  "declares_json res =
     (case content_type res of
        None \<Rightarrow> False
      | Some ct \<Rightarrow> str_includes ct ''application/json'')"

definition api :: "env \<Rightarrow> string \<Rightarrow> opts \<Rightarrow> world \<Rightarrow> (error + jsval) \<times> world" where
  "api e path opts w =
     (case fetch (API e @ path) opts w of
        (Inl err, w') \<Rightarrow> (Inl err, w')
      | (Inr res, w') \<Rightarrow>
          if \<not> ok res then (Inl (Error (body_text res)), w')
          else if declares_json res
          then (case body_json res of
                  None \<Rightarrow> (Inl SyntaxError, w')
                | Some v \<Rightarrow> (Inr v, w'))
          else (Inr (JStr (body_text res)), w'))"

text \<open>
  What \<^verbatim>\<open>api\<close> returns or throws on a script, whatever the path: the outcome at the
  head of the script decides it.
\<close>

definition api_answer :: "outcome list \<Rightarrow> error + jsval" where
  "api_answer ps =
     (case ps of
        [] \<Rightarrow> Inl NetworkError
      | Rejected # rest \<Rightarrow> Inl NetworkError
      | Responded res # rest \<Rightarrow>
          if \<not> ok res then Inl (Error (body_text res))
          else if declares_json res
          then (case body_json res of None \<Rightarrow> Inl SyntaxError | Some v \<Rightarrow> Inr v)
          else Inr (JStr (body_text res)))"

definition api_fails :: "outcome list \<Rightarrow> bool" where
  "api_fails ps = (case api_answer ps of Inl err \<Rightarrow> True | Inr v \<Rightarrow> False)"

section \<open>The page\<close>

text \<open>
  The elements that the script reads and writes, each by the property used:
  \<^verbatim>\<open>$("reviewQ").dataset.cardId\<close> is \<open>reviewQ_cardId\<close> (\<open>None\<close> while the attribute
  is not set), the class \<^verbatim>\<open>hidden\<close> of \<^verbatim>\<open>reviewA\<close> is \<open>reviewA_hidden\<close>, the rows of
  \<^verbatim>\<open>cardsTbody\<close> are pairs of \<^verbatim>\<open>className\<close> and \<^verbatim>\<open>innerHTML\<close>, the boxes of
  \<^verbatim>\<open>qaList\<close> are pairs of \<^verbatim>\<open>innerHTML\<close> and the item that the button's handler
  holds, and \<^verbatim>\<open>let SOC_SESSION\<close> is a field as well. All elements exist;
  \<^verbatim>\<open>deckSelect\<close> is a drop-down, which selects the first option added to it when it
  has none. An \<^verbatim>\<open>innerHTML\<close> reads back as written. Focus and scroll position are
  not part of the page.
\<close>

record dom =
  deckSelect_options :: "(string \<times> string) list"
  deckSelect_value :: string
  deckName_value :: string
  tag_value :: string
  question_value :: string
  answer_value :: string
  tagFilter_value :: string
  reviewQ_textContent :: string
  reviewQ_cardId :: "string option"
  reviewA_textContent :: string
  reviewA_hidden :: bool
  pdfFile_files :: "string list"
  qaList :: "(string \<times> jsval) list"
  cardsTbody :: "(string \<times> string) list"
  stats_innerHTML :: string
  SOC_SESSION :: jsval
  sidekickTopic_value :: string
  sidekickTitle_value :: string
  sidekickOutput_value :: string
  chatInput_value :: string
  chatBox_innerHTML :: string

type_synonym state = "dom \<times> world"

text \<open>
  A call that is not awaited: its effects happen, its failure reaches nobody. The
  responses are taken in the order of the requests, and the calls so made by one
  function write different elements, so running them one after the other gives the
  page that they leave.
\<close>

definition detached :: "(state \<Rightarrow> (error + unit) \<times> state) \<Rightarrow> state \<Rightarrow> state" where
  "detached f s = snd (f s)"

section \<open>Cards and statistics\<close>

text \<open>\<^verbatim>\<open>refreshCards\<close>, the body of the \<^verbatim>\<open>forEach\<close>: the class of a row.\<close>

definition row_class :: "jsval \<Rightarrow> string" where
  "row_class c =
     (let hard = js_gt (field c ''wrong_count'') (field c ''right_count'');
          medium = (strict_eq (field c ''wrong_count'') (field c ''right_count'')
                    \<and> js_gt (js_add (field c ''right_count'') (field c ''wrong_count''))
                         (JNum (Fin 0)));
          easy = js_gt (field c ''right_count'') (field c ''wrong_count'')
      in if hard then ''hard'' else if medium then ''medium'' else if easy then ''easy'' else [])"

definition nullish_or :: "jsval \<Rightarrow> jsval \<Rightarrow> jsval" where
  "nullish_or a b = (if a = JNull \<or> a = JUndefined then b else a)"

definition row_html :: "env \<Rightarrow> jsval \<Rightarrow> string" where
  \<open>row_html e c =
     (let due = (if truthy (field c ''due_at'')
                 then toLocaleString e (to_string (js_add (field c ''due_at'') (JStr ''Z'')))
                 else [])
      in [CHR 0x0A] @ ''      <td>'' @ to_string (field c ''tag'') @ ''</td>''
       @ [CHR 0x0A] @ ''      <td>'' @ to_string (field c ''question'') @ ''</td>''
       @ [CHR 0x0A] @ ''      <td>'' @ to_string (field c ''answer'') @ ''</td>''
       @ [CHR 0x0A] @ ''      <td>'' @ to_string (nullish_or (field c ''last_result'') (JStr [])) @ ''</td>''
       @ [CHR 0x0A] @ ''      <td>'' @ to_string (field c ''right_count'') @ ''</td>''
       @ [CHR 0x0A] @ ''      <td>'' @ to_string (field c ''wrong_count'') @ ''</td>''
       @ [CHR 0x0A] @ ''      <td>'' @ due @ ''</td>'')\<close>

fun cards_forEach :: "env \<Rightarrow> jsval list \<Rightarrow> dom \<Rightarrow> (error + unit) \<times> dom" where
  "cards_forEach e [] d = (Inr (), d)"
| "cards_forEach e (c # cs) d =
     (if c = JNull \<or> c = JUndefined then (Inl TypeError, d)
      else cards_forEach e cs (d\<lparr>cardsTbody := cardsTbody d @ [(row_class c, row_html e c)]\<rparr>))"

definition refreshCards :: "env \<Rightarrow> state \<Rightarrow> (error + unit) \<times> state" where
  "refreshCards e s =
     (case s of (d, w) \<Rightarrow>
        let deck_id = string_to_number (deckSelect_value d);
            tag = trim (tagFilter_value d);
            q = URLSearchParams
                  ((if num_truthy deck_id then [(''deck_id'', num_to_string deck_id)] else [])
                   @ (if tag \<noteq> [] then [(''tag'', tag)] else []))
        in case api e (''/cards?'' @ q) no_opts w of
             (Inl err, w') \<Rightarrow> (Inl err, d, w')
           | (Inr cards, w') \<Rightarrow>
               (case cards of
                  JArr cs \<Rightarrow>
                    (case cards_forEach e cs (d\<lparr>cardsTbody := []\<rparr>) of
                       (r, d') \<Rightarrow> (r, d', w'))
                | _ \<Rightarrow> (Inl TypeError, d\<lparr>cardsTbody := []\<rparr>, w')))"

definition stats_html :: "jsval \<Rightarrow> error + string" where
  \<open>stats_html s =
     (case get s ''total'' of
        Inl err \<Rightarrow> Inl err
      | Inr tot \<Rightarrow>
          (case get (field s ''buckets'') ''red_hard'' of
             Inl err \<Rightarrow> Inl err
           | Inr red_hard \<Rightarrow>
               let b = field s ''buckets'' in
               Inr ([CHR 0x0A] @ ''    <div class="box">Total: '' @ to_string tot @ ''</div>''
                  @ [CHR 0x0A] @ ''    <div class="box" style="border-color:#ef4444">Red/Hard: ''
                  @ to_string red_hard @ ''</div>''
                  @ [CHR 0x0A] @ ''    <div class="box" style="border-color:#f59e0b">Orange/Medium: ''
                  @ to_string (field b ''orange_medium'') @ ''</div>''
                  @ [CHR 0x0A] @ ''    <div class="box" style="border-color:#10b981">Green/Easy: ''
                  @ to_string (field b ''green_easy'') @ ''</div>''
                  @ [CHR 0x0A] @ ''    <div class="box" style="border-color:#9ca3af">Never Reviewed: ''
                  @ to_string (field b ''gray_never'') @ ''</div>''
                  @ [CHR 0x0A] @ ''  '')))\<close>

definition refreshStats :: "env \<Rightarrow> state \<Rightarrow> (error + unit) \<times> state" where
  "refreshStats e s =
     (case s of (d, w) \<Rightarrow>
        let deck_id = string_to_number (deckSelect_value d);
            q = URLSearchParams
                  (if num_truthy deck_id then [(''deck_id'', num_to_string deck_id)] else [])
        in case api e (''/reflect/stats?'' @ q) no_opts w of
             (Inl err, w') \<Rightarrow> (Inl err, d, w')
           | (Inr st, w') \<Rightarrow>
               (case stats_html st of
                  Inl err \<Rightarrow> (Inl err, d, w')
                | Inr html \<Rightarrow> (Inr (), d\<lparr>stats_innerHTML := html\<rparr>, w')))"

section \<open>Decks and cards\<close>

fun decks_forEach :: "jsval list \<Rightarrow> dom \<Rightarrow> (error + unit) \<times> dom" where
  "decks_forEach [] d = (Inr (), d)"
| "decks_forEach (x # xs) d =
     (if x = JNull \<or> x = JUndefined then (Inl TypeError, d)
      else decks_forEach xs
             (d\<lparr>deckSelect_options :=
                   deckSelect_options d @ [(to_string (field x ''id''), as_textContent (field x ''name''))],
                 deckSelect_value :=
                   (if deckSelect_options d = [] then to_string (field x ''id'')
                    else deckSelect_value d)\<rparr>))"

definition refreshDecks :: "env \<Rightarrow> state \<Rightarrow> (error + unit) \<times> state" where
  "refreshDecks e s =
     (case s of (d, w) \<Rightarrow>
        case api e ''/decks'' no_opts w of
          (Inl err, w') \<Rightarrow> (Inl err, d, w')
        | (Inr decks, w') \<Rightarrow>
            let d0 = d\<lparr>deckSelect_options := [], deckSelect_value := []\<rparr> in
            (case decks of
               JArr xs \<Rightarrow>
                 (case decks_forEach xs d0 of
                    (Inl err, d') \<Rightarrow> (Inl err, d', w')
                  | (Inr u, d') \<Rightarrow>
                      if xs = [] then (Inr (), d', w')
                      else (Inr (), detached (refreshStats e) (detached (refreshCards e) (d', w'))))
             | _ \<Rightarrow> (Inl TypeError, d0, w')))"

definition createDeck :: "env \<Rightarrow> state \<Rightarrow> (error + unit) \<times> state" where
  "createDeck e s =
     (case s of (d, w) \<Rightarrow>
        let name = trim (deckName_value d) in
        if name = [] then (Inr (), d, w)
        else case api e ''/decks'' (post_json (JObj [(''name'', JStr name)])) w of
               (Inl err, w') \<Rightarrow> (Inl err, d, w')
             | (Inr r, w') \<Rightarrow>
                 (Inr (), detached (refreshDecks e) (d\<lparr>deckName_value := []\<rparr>, w')))"

definition addCard :: "env \<Rightarrow> state \<Rightarrow> (error + unit) \<times> state" where
  "addCard e s =
     (case s of (d, w) \<Rightarrow>
        let deck_id = string_to_number (deckSelect_value d);
            tag = (if trim (tag_value d) \<noteq> [] then trim (tag_value d) else ''general'');
            question = trim (question_value d);
            answer = trim (answer_value d)
        in if \<not> num_truthy deck_id \<or> question = [] \<or> answer = [] then (Inr (), d, w)
           else case api e ''/cards''
                       (post_json (JObj [(''deck_id'', JNum deck_id), (''tag'', JStr tag),
                                         (''question'', JStr question), (''answer'', JStr answer)])) w of
                  (Inl err, w') \<Rightarrow> (Inl err, d, w')
                | (Inr r, w') \<Rightarrow>
                    (Inr (), detached (refreshStats e)
                               (detached (refreshCards e)
                                  (d\<lparr>question_value := [], answer_value := []\<rparr>, w'))))"

section \<open>The review session\<close>

definition nothing_due :: string where
  "nothing_due =
     ''Nothing due yet'' @ [CHR 0xE2, CHR 0x80, CHR 0x94] @ ''nice! Add cards or wait until due.''"

definition loadNext :: "env \<Rightarrow> state \<Rightarrow> (error + unit) \<times> state" where
  "loadNext e s =
     (case s of (d, w) \<Rightarrow>
        let deck_id = string_to_number (deckSelect_value d);
            tag = trim (tagFilter_value d);
            q = URLSearchParams
                  ((''deck_id'', num_to_string deck_id) # (if tag \<noteq> [] then [(''tag'', tag)] else []))
        in case api e (''/review/next?'' @ q) no_opts w of
             (Inl err, w') \<Rightarrow> (Inl err, d, w')
           | (Inr next_card, w') \<Rightarrow>
               if \<not> truthy next_card
               then (Inr (),
                     d\<lparr>reviewQ_textContent := nothing_due,
                       reviewA_hidden := True,
                       reviewA_textContent := [],
                       reviewQ_cardId := Some []\<rparr>, w')
               else (Inr (),
                     d\<lparr>reviewQ_textContent := as_textContent (field next_card ''question''),
                       reviewA_textContent := as_textContent (field next_card ''answer''),
                       reviewA_hidden := True,
                       reviewQ_cardId := Some (to_string (field next_card ''id''))\<rparr>, w'))"

text \<open>\<^verbatim>\<open>Number($("reviewQ").dataset.cardId || 0)\<close>\<close>

definition loaded_cardId :: "dom \<Rightarrow> jsnum" where
  "loaded_cardId d =
     to_number (js_or (case reviewQ_cardId d of None \<Rightarrow> JUndefined | Some c \<Rightarrow> JStr c)
                      (JNum (Fin 0)))"

definition submitResult :: "env \<Rightarrow> string \<Rightarrow> state \<Rightarrow> (error + unit) \<times> state" where
  "submitResult e result s =
     (case s of (d, w) \<Rightarrow>
        let cardId = loaded_cardId d in
        if \<not> num_truthy cardId then (Inr (), d, w)
        else case api e ''/review/submit''
                    (post_json (JObj [(''card_id'', JNum cardId), (''result'', JStr result)])) w of
               (Inl err, w') \<Rightarrow> (Inl err, d, w')
             | (Inr r, w') \<Rightarrow>
                 (case loadNext e (d, w') of
                    (Inl err, s1) \<Rightarrow> (Inl err, s1)
                  | (Inr u1, s1) \<Rightarrow>
                      (case refreshCards e s1 of
                         (Inl err, s2) \<Rightarrow> (Inl err, s2)
                       | (Inr u2, s2) \<Rightarrow> refreshStats e s2)))"

definition showAnswer :: "dom \<Rightarrow> dom" where
  "showAnswer d = d\<lparr>reviewA_hidden := False\<rparr>"

section \<open>Questions from a PDF\<close>

definition qa_html :: "jsval \<Rightarrow> string" where
  \<open>qa_html item =
     ''<b>Q:</b> '' @ to_string (field item ''q'') @ ''<br/><b>A:</b> '' @ to_string (field item ''a'')
     @ [CHR 0x0A] @ ''      <div class="row" style="margin-top:6px">''
     @ [CHR 0x0A] @ ''        <button class="ghost" data-add="1">+ Add as Card</button>''
     @ [CHR 0x0A] @ ''      </div>''\<close>

fun qa_forEach :: "jsval list \<Rightarrow> dom \<Rightarrow> (error + unit) \<times> dom" where
  "qa_forEach [] d = (Inr (), d)"
| "qa_forEach (item # items) d =
     (if item = JNull \<or> item = JUndefined then (Inl TypeError, d)
      else qa_forEach items (d\<lparr>qaList := qaList d @ [(qa_html item, item)]\<rparr>))"

definition ingestPdf :: "env \<Rightarrow> state \<Rightarrow> (error + unit) \<times> state" where
  "ingestPdf e s =
     (case s of (d, w) \<Rightarrow>
        case pdfFile_files d of
          [] \<Rightarrow> (Inr (), d, w)
        | f # fs \<Rightarrow>
            (case fetch (API e @ ''/ingest/pdf'')
                    \<lparr>http_method = ''POST'', headers = [], body = FormData [(''file'', f)]\<rparr> w of
               (Inl err, w') \<Rightarrow> (Inl err, d, w')
             | (Inr res, w') \<Rightarrow>
                 (case body_json res of
                    None \<Rightarrow> (Inl SyntaxError, d, w')
                  | Some data \<Rightarrow>
                      (case get data ''qa'' of
                         Inl err \<Rightarrow> (Inl err, d\<lparr>qaList := []\<rparr>, w')
                       | Inr (JArr items) \<Rightarrow>
                           (case qa_forEach items (d\<lparr>qaList := []\<rparr>) of
                              (r, d') \<Rightarrow> (r, d', w'))
                       | Inr other \<Rightarrow> (Inl TypeError, d\<lparr>qaList := []\<rparr>, w')))))"

text \<open>The \<^verbatim>\<open>onclick\<close> that \<^verbatim>\<open>ingestPdf\<close> gives the button of a box, for the item of the box.\<close>

definition ingestPdf_onclick :: "env \<Rightarrow> jsval \<Rightarrow> state \<Rightarrow> (error + unit) \<times> state" where
  "ingestPdf_onclick e item s =
     (case s of (d, w) \<Rightarrow>
        let deck_id = string_to_number (deckSelect_value d);
            tag = (if trim (tag_value d) \<noteq> [] then trim (tag_value d) else ''general'')
        in case api e ''/cards''
                  (post_json (JObj [(''deck_id'', JNum deck_id), (''tag'', JStr tag),
                                    (''question'', field item ''q''), (''answer'', field item ''a'')])) w of
             (Inl err, w') \<Rightarrow> (Inl err, d, w')
           | (Inr r, w') \<Rightarrow>
               (Inr (), detached (refreshStats e) (detached (refreshCards e) (d, w'))))"

section \<open>The dialogue session\<close>

definition great_work :: string where
  "great_work =
     ''<div><b>Gemini:</b> Great work! I generated a draft on the left ''
     @ [CHR 0xE2, CHR 0x80, CHR 0x94] @ '' feel free to edit, then click Post.</div>''"

definition startSidekick :: "env \<Rightarrow> state \<Rightarrow> (error + unit) \<times> state" where
  "startSidekick e s =
     (case s of (d, w) \<Rightarrow>
        let topic = trim (sidekickTopic_value d) in
        if topic = [] then (Inr (), d, w)
        else case api e ''/socratic/start'' (post_json (JObj [(''topic'', JStr topic)])) w of
               (Inl err, w') \<Rightarrow> (Inl err, d, w')
             | (Inr res, w') \<Rightarrow>
                 (case get res ''session_id'' of
                    Inl err \<Rightarrow> (Inl err, d, w')
                  | Inr session_id \<Rightarrow>
                      (Inr (),
                       d\<lparr>SOC_SESSION := session_id,
                         sidekickTitle_value := topic,
                         sidekickOutput_value := [],
                         chatBox_innerHTML :=
                           ''<div><b>Gemini:</b> '' @ to_string (field res ''question'') @ ''</div>''\<rparr>,
                       w')))"

definition sendSidekickAnswer :: "env \<Rightarrow> state \<Rightarrow> (error + unit) \<times> state" where
  "sendSidekickAnswer e s =
     (case s of (d, w) \<Rightarrow>
        if \<not> truthy (SOC_SESSION d) then (Inr (), d, w)
        else
          let ans = trim (chatInput_value d) in
          if ans = [] then (Inr (), d, w)
          else
            let d1 = d\<lparr>chatBox_innerHTML :=
                          chatBox_innerHTML d @ ''<div><b>You:</b> '' @ ans @ ''</div>'',
                        chatInput_value := []\<rparr>
            in case api e ''/socratic/reply''
                      (post_json (JObj [(''session_id'', SOC_SESSION d), (''answer'', JStr ans)])) w of
                 (Inl err, w') \<Rightarrow> (Inl err, d1, w')
               | (Inr res, w') \<Rightarrow>
                   (case get res ''done'' of
                      Inl err \<Rightarrow> (Inl err, d1, w')
                    | Inr done_flag \<Rightarrow>
                        if \<not> truthy done_flag
                        then (Inr (),
                              d1\<lparr>chatBox_innerHTML :=
                                    chatBox_innerHTML d1 @ ''<div><b>Gemini:</b> ''
                                    @ to_string (field res ''question'') @ ''</div>''\<rparr>, w')
                        else (Inr (),
                              d1\<lparr>sidekickOutput_value := as_value (field res ''content''),
                                 sidekickTitle_value :=
                                   as_value (js_or (field res ''title'')
                                               (js_or (JStr (sidekickTitle_value d1))
                                                      (JStr ''My Learning Note''))),
                                 chatBox_innerHTML := chatBox_innerHTML d1 @ great_work\<rparr>, w')))"

section \<open>The sessions as parts of the page\<close>

text \<open>
  The review session is what \<^verbatim>\<open>loadNext\<close>, \<^verbatim>\<open>showAnswer\<close> and \<^verbatim>\<open>submitResult\<close>
  read and write: the question shown, the card identifier, the answer and whether it is
  hidden.
\<close>

definition review_session :: "dom \<Rightarrow> string \<times> string option \<times> string \<times> bool" where
  "review_session d =
     (reviewQ_textContent d, reviewQ_cardId d, reviewA_textContent d, reviewA_hidden d)"

section \<open>Requests relative to the base address\<close>

text \<open>
  A logged request relative to a base address: the address without the base, where it
  starts with it. Two runs agree up to the base when they return or throw the same,
  leave the same page and the same script, and have logged the same requests relative
  to their bases, all of them under the base.
\<close>

definition relative_to :: "string \<Rightarrow> string \<times> opts \<Rightarrow> (string \<times> opts) option" where
  "relative_to base q =
     (if prefix base (fst q) then Some (drop (length base) (fst q), snd q) else None)"

definition same_requests :: "string \<Rightarrow> string \<Rightarrow> world \<Rightarrow> world \<Rightarrow> bool" where
  "same_requests a b w1 w2 =
     (pending w1 = pending w2
      \<and> map (relative_to a) (sent w1) = map (relative_to b) (sent w2)
      \<and> None \<notin> set (map (relative_to a) (sent w1)))"

definition same_state :: "string \<Rightarrow> string \<Rightarrow> state \<Rightarrow> state \<Rightarrow> bool" where
  "same_state a b s1 s2 = (fst s1 = fst s2 \<and> same_requests a b (snd s1) (snd s2))"

definition same_modulo_base ::
  "string \<Rightarrow> string \<Rightarrow> (error + unit) \<times> state \<Rightarrow> (error + unit) \<times> state \<Rightarrow> bool" where
  "same_modulo_base a b x y = (fst x = fst y \<and> same_state a b (snd x) (snd y))"

section \<open>The two files, and pages and answers to try them on\<close>

text \<open>
  \<^verbatim>\<open>src/frontend/app.js\<close> and \<^verbatim>\<open>src/unnamed/part_000\<close> have the same text for the
  functions of the review and the decks, and differ in \<^verbatim>\<open>const API\<close>.
\<close>

definition app_js :: "(string \<Rightarrow> string) \<Rightarrow> env" where
  "app_js fmt = \<lparr>API = ''/api'', toLocaleString = fmt\<rparr>"

definition part_000 :: "(string \<Rightarrow> string) \<Rightarrow> env" where
  "part_000 fmt = \<lparr>API = ''http://localhost:8000'', toLocaleString = fmt\<rparr>"

definition empty_page :: dom where
  "empty_page =
     \<lparr>deckSelect_options = [], deckSelect_value = [], deckName_value = [], tag_value = [],
      question_value = [], answer_value = [], tagFilter_value = [],
      reviewQ_textContent = [], reviewQ_cardId = None, reviewA_textContent = [],
      reviewA_hidden = True, pdfFile_files = [], qaList = [], cardsTbody = [],
      stats_innerHTML = [], SOC_SESSION = JNull, sidekickTopic_value = [],
      sidekickTitle_value = [], sidekickOutput_value = [], chatInput_value = [],
      chatBox_innerHTML = []\<rparr>"

text \<open>
  A successful answer with a JSON body, of which only the parsed value is given, and a
  failure with a message.
\<close>

definition json_response :: "jsval \<Rightarrow> outcome" where
  "json_response v =
     Responded \<lparr>status = 200, content_type = Some ''application/json'',
                body_text = [], body_json = Some v\<rparr>"

definition error_response :: "string \<Rightarrow> outcome" where
  "error_response msg =
     Responded \<lparr>status = 500, content_type = Some ''text/plain'',
                body_text = msg, body_json = None\<rparr>"

definition script :: "outcome list \<Rightarrow> world" where
  "script ps = \<lparr>pending = ps, sent = []\<rparr>"

text \<open>A page with the card of identifier 42 loaded and its answer hidden.\<close>

definition loaded_page :: dom where
  "loaded_page = empty_page\<lparr>reviewQ_cardId := Some ''42''\<rparr>"

text \<open>
  A dialogue in progress with an answer typed in, the backend's reply that ends a
  dialogue, and the state after that reply has been received.
\<close>

definition active_page :: dom where
  "active_page = empty_page\<lparr>SOC_SESSION := JStr ''s1'', chatInput_value := ''because''\<rparr>"

definition done_reply :: outcome where
  "done_reply =
     json_response (JObj [(''done'', JBool True), (''content'', JStr ''note''), (''title'', JStr ''T'')])"

definition complete_state :: state where
  "complete_state = snd (sendSidekickAnswer (app_js id) (active_page, script [done_reply, done_reply]))"

section \<open>Numbers and their decimal strings\<close>

text \<open>\<^verbatim>\<open>Number(String(i))\<close> is \<open>i\<close> again, for every integer.\<close>

lemma digit_val_digit_char: "n < 10 \<Longrightarrow> digit_val (digit_char n) = Some n"
proof -
  assume "n < 10"
  then have "n \<in> {0,1,2,3,4,5,6,7,8,9}" by auto
  then show ?thesis by (auto simp: digit_val_def digit_char_def)
qed

lemma digit_char_not_space: "n < 10 \<Longrightarrow> \<not> is_space (digit_char n)"
proof -
  assume "n < 10"
  then have "n \<in> {0,1,2,3,4,5,6,7,8,9}" by auto
  then show ?thesis by (auto simp: is_space_def digit_char_def)
qed

lemma digit_char_not_sign: "n < 10 \<Longrightarrow> digit_char n \<noteq> CHR ''-'' \<and> digit_char n \<noteq> CHR ''+''"
proof -
  assume "n < 10"
  then have "n \<in> {0,1,2,3,4,5,6,7,8,9}" by auto
  then show ?thesis by (auto simp: digit_char_def)
qed

lemma parse_digits_append:
  "parse_digits acc (xs @ ys) = (case parse_digits acc xs of None \<Rightarrow> None | Some a \<Rightarrow> parse_digits a ys)"
  by (induction xs arbitrary: acc) (auto split: option.splits)

lemma show_nat_nonempty: "show_nat n \<noteq> []"
  by (subst show_nat.simps) simp

lemma parse_digits_show_nat: "parse_digits 0 (show_nat n) = Some n"
proof (induction n rule: show_nat.induct)
  case (1 n)
  show ?case
  proof (cases "n < 10")
    case True
    then show ?thesis by (subst show_nat.simps) (simp add: digit_val_digit_char)
  next
    case False
    with 1 have "parse_digits 0 (show_nat (n div 10)) = Some (n div 10)" by simp
    with False show ?thesis
      by (subst show_nat.simps) (simp add: parse_digits_append digit_val_digit_char)
  qed
qed

lemma show_nat_digits: "c \<in> set (show_nat n) \<Longrightarrow> \<exists>k<10. c = digit_char k"
proof (induction n rule: show_nat.induct)
  case (1 n)
  show ?case
  proof (cases "n < 10")
    case True
    with 1(2) show ?thesis by (subst (asm) show_nat.simps) auto
  next
    case False
    from 1(2) False have "c \<in> set (show_nat (n div 10)) \<or> c = digit_char (n mod 10)"
      by (subst (asm) show_nat.simps) auto
    then show ?thesis
    proof
      assume "c \<in> set (show_nat (n div 10))"
      with 1(1) False show ?thesis by simp
    next
      assume "c = digit_char (n mod 10)"
      then show ?thesis by (intro exI[of _ "n mod 10"]) simp
    qed
  qed
qed

lemma dropWhile_hd: "s \<noteq> [] \<Longrightarrow> \<not> P (hd s) \<Longrightarrow> dropWhile P s = s"
  by (cases s) auto

lemma trim_id: "s \<noteq> [] \<Longrightarrow> \<not> is_space (hd s) \<Longrightarrow> \<not> is_space (last s) \<Longrightarrow> trim s = s"
  by (simp add: trim_def dropWhile_hd hd_rev)

lemma show_nat_chars:
  assumes "c \<in> set (show_nat n)"
  shows "\<not> is_space c" "c \<noteq> CHR ''-''" "c \<noteq> CHR ''+''"
proof -
  from assms obtain k where "k < 10" "c = digit_char k" using show_nat_digits by blast
  then show "\<not> is_space c" "c \<noteq> CHR ''-''" "c \<noteq> CHR ''+''"
    using digit_char_not_space digit_char_not_sign by auto
qed

lemma trim_show_nat: "trim (show_nat n) = show_nat n"
proof -
  have ne: "show_nat n \<noteq> []" by (rule show_nat_nonempty)
  then have "hd (show_nat n) \<in> set (show_nat n)" "last (show_nat n) \<in> set (show_nat n)" by simp_all
  then have "\<not> is_space (hd (show_nat n))" "\<not> is_space (last (show_nat n))"
    using show_nat_chars(1) by blast+
  with ne show ?thesis by (rule trim_id)
qed

lemma hd_show_nat_not_sign: "hd (show_nat n) \<noteq> CHR ''-'' \<and> hd (show_nat n) \<noteq> CHR ''+''"
proof -
  have "hd (show_nat n) \<in> set (show_nat n)" using show_nat_nonempty by simp
  then show ?thesis using show_nat_chars by blast
qed

lemma string_to_number_show_nat: "string_to_number (show_nat n) = Fin (int n)"
proof -
  obtain c cs where cs: "show_nat n = c # cs" using show_nat_nonempty by (cases "show_nat n") auto
  with hd_show_nat_not_sign[of n] have "c \<noteq> CHR ''-''" "c \<noteq> CHR ''+''" by auto
  moreover have "parse_nat (c # cs) = Some n"
    using parse_digits_show_nat[of n] cs by (simp add: parse_nat_def)
  ultimately show ?thesis
    using cs trim_show_nat[of n] by (simp add: string_to_number_def)
qed

lemma trim_minus: "trim (CHR ''-'' # show_nat n) = CHR ''-'' # show_nat n"
proof (rule trim_id)
  show "CHR ''-'' # show_nat n \<noteq> []" by simp
  show "\<not> is_space (hd (CHR ''-'' # show_nat n))" by (simp add: is_space_def)
  have "last (show_nat n) \<in> set (show_nat n)" using show_nat_nonempty by simp
  then have "\<not> is_space (last (show_nat n))" by (rule show_nat_chars)
  then show "\<not> is_space (last (CHR ''-'' # show_nat n))" using show_nat_nonempty by simp
qed

lemma string_to_number_show_int: "string_to_number (show_int i) = Fin i"
proof (cases "i < 0")
  case True
  have "parse_nat (show_nat (nat (- i))) = Some (nat (- i))"
    using parse_digits_show_nat show_nat_nonempty by (simp add: parse_nat_def)
  with True show ?thesis
    by (simp add: show_int_def string_to_number_def trim_minus)
next
  case False
  then show ?thesis by (simp add: show_int_def string_to_number_show_nat)
qed

section \<open>The request layer\<close>

lemma api_eq:
  "api e path opts w =
     (api_answer (pending w), \<lparr>pending = tl (pending w), sent = sent w @ [(API e @ path, opts)]\<rparr>)"
  by (cases w) (auto simp: api_def fetch_def api_answer_def split: list.splits outcome.splits option.splits)

lemma field_num_not_null: "field c n = JNum x \<Longrightarrow> c \<noteq> JNull \<and> c \<noteq> JUndefined"
  by (auto simp: field_def)

text \<open>
  C7. For every path and request descriptor, \<^verbatim>\<open>api\<close> returns the parsed JSON body
  when the response is a success whose content type contains \<^verbatim>\<open>application/json\<close>,
  the text of the body when the response is a success with another content type or none,
  and throws an \<^verbatim>\<open>Error\<close> whose message is the text of the body when the response is
  not a success. In each case the request went to \<^verbatim>\<open>API + path\<close>.
\<close>

theorem api_result:
  assumes "pending w = Responded res # rest"
  shows "(ok res \<and> declares_json res \<and> body_json res = Some v \<longrightarrow> fst (api e path opts w) = Inr v)
       \<and> (ok res \<and> \<not> declares_json res \<longrightarrow> fst (api e path opts w) = Inr (JStr (body_text res)))
       \<and> (\<not> ok res \<longrightarrow> fst (api e path opts w) = Inl (Error (body_text res)))
       \<and> snd (api e path opts w) = \<lparr>pending = rest, sent = sent w @ [(API e @ path, opts)]\<rparr>"
  using assms by (simp add: api_eq api_answer_def)

theorem api_result_witness:
  "fst (api (app_js id) ''/decks'' no_opts (script [json_response (JArr [])])) = Inr (JArr [])
   \<and> fst (api (app_js id) ''/decks'' no_opts
            (script [Responded \<lparr>status = 200, content_type = Some ''text/plain'',
                                 body_text = ''hello'', body_json = None\<rparr>])) = Inr (JStr ''hello'')
   \<and> fst (api (app_js id) ''/decks'' no_opts (script [error_response ''boom''])) = Inl (Error ''boom'')"
  using api_result [of "script [json_response (JArr [])]" _ "[]" "JArr []" "app_js id" "''/decks''" no_opts]
    api_result [of "script [Responded \<lparr>status = 200, content_type = Some ''text/plain'',
                                 body_text = ''hello'', body_json = None\<rparr>]" _ "[]" _ "app_js id" "''/decks''" no_opts]
    api_result [of "script [error_response ''boom'']" _ "[]" _ "app_js id" "''/decks''" no_opts]
  by (simp add: script_def json_response_def error_response_def ok_def declares_json_def)

section \<open>The classes of the rows\<close>

text \<open>
  C9. For a card whose \<^verbatim>\<open>right_count\<close> r and \<^verbatim>\<open>wrong_count\<close> w are numbers that
  are not negative, the row that \<^verbatim>\<open>refreshCards\<close> appends has the class
  \<^verbatim>\<open>hard\<close> exactly when w > r, \<^verbatim>\<open>medium\<close> exactly when w = r and r + w > 0,
  \<^verbatim>\<open>easy\<close> exactly when r > w, and no class exactly when both are zero; the class is
  one value, so the four cases exclude each other, and they cover every r and w.
\<close>

theorem refreshCards_row_class:
  assumes "field c ''right_count'' = JNum (Fin r)" and "field c ''wrong_count'' = JNum (Fin w)"
    and "0 \<le> r" and "0 \<le> w"
  shows "(row_class c = ''hard'' \<longleftrightarrow> r < w)
       \<and> (row_class c = ''medium'' \<longleftrightarrow> w = r \<and> 0 < r + w)
       \<and> (row_class c = ''easy'' \<longleftrightarrow> w < r)
       \<and> (row_class c = [] \<longleftrightarrow> r = 0 \<and> w = 0)
       \<and> cards_forEach e [c] d
           = (Inr (), d\<lparr>cardsTbody := cardsTbody d @ [(row_class c, row_html e c)]\<rparr>)"
proof -
  have cls: "row_class c = (if r < w then ''hard'' else if w = r \<and> 0 < r + w then ''medium''
                       else if w < r then ''easy'' else [])"
    using assms by (simp add: row_class_def js_gt_def js_add_def)
  have nn: "c \<noteq> JNull \<and> c \<noteq> JUndefined" using assms(1) by (rule field_num_not_null)
  from cls assms(3,4) have "(row_class c = ''hard'' \<longleftrightarrow> r < w)" by auto
  moreover from cls assms(3,4) have "(row_class c = ''medium'' \<longleftrightarrow> w = r \<and> 0 < r + w)" by auto
  moreover from cls assms(3,4) have "(row_class c = ''easy'' \<longleftrightarrow> w < r)" by auto
  moreover from cls assms(3,4) have "(row_class c = [] \<longleftrightarrow> r = 0 \<and> w = 0)" by auto
  moreover from nn have "cards_forEach e [c] d
           = (Inr (), d\<lparr>cardsTbody := cardsTbody d @ [(row_class c, row_html e c)]\<rparr>)" by simp
  ultimately show ?thesis by blast
qed

theorem refreshCards_row_class_witness:
  "row_class (JObj [(''right_count'', JNum (Fin 2)), (''wrong_count'', JNum (Fin 2))]) = ''medium''
   \<and> row_class (JObj [(''right_count'', JNum (Fin 1)), (''wrong_count'', JNum (Fin 3))]) = ''hard''
   \<and> row_class (JObj [(''right_count'', JNum (Fin 0)), (''wrong_count'', JNum (Fin 0))]) = []"
  using refreshCards_row_class [of "JObj [(''right_count'', JNum (Fin 2)), (''wrong_count'', JNum (Fin 2))]" 2 2]
    refreshCards_row_class [of "JObj [(''right_count'', JNum (Fin 1)), (''wrong_count'', JNum (Fin 3))]" 1 3]
    refreshCards_row_class [of "JObj [(''right_count'', JNum (Fin 0)), (''wrong_count'', JNum (Fin 0))]" 0 0]
  by (simp add: field_def)

section \<open>Loading a card, and submitting without one\<close>

text \<open>
  C6. For every result string, \<^verbatim>\<open>submitResult\<close> on a page with no card identifier
  (the attribute unset or empty) returns without a request and leaves the page and the
  network as they were.
\<close>

theorem submitResult_Empty_noop:
  assumes "reviewQ_cardId d = None \<or> reviewQ_cardId d = Some []"
  shows "submitResult e r (d, w) = (Inr (), d, w)"
  using assms
  by (auto simp: submitResult_def loaded_cardId_def js_or_def string_to_number_def trim_def)

theorem submitResult_Empty_noop_witness:
  "submitResult (app_js id) ''hard'' (empty_page\<lparr>reviewQ_cardId := Some []\<rparr>, script [json_response JNull])
     = (Inr (), empty_page\<lparr>reviewQ_cardId := Some []\<rparr>, script [json_response JNull])"
  using submitResult_Empty_noop [of "empty_page\<lparr>reviewQ_cardId := Some []\<rparr>" "app_js id" "''hard''"
      "script [json_response JNull]"]
  by simp

lemma get_field: "v \<noteq> JNull \<Longrightarrow> v \<noteq> JUndefined \<Longrightarrow> get v name = Inr (field v name)"
  by (cases v) (auto simp: field_def split: option.splits)

lemma get_nullish: "v = JNull \<or> v = JUndefined \<Longrightarrow> get v name = Inl TypeError"
  by auto

lemma show_int_nonempty: "show_int i \<noteq> []"
  by (simp add: show_int_def show_nat_nonempty)

lemma loaded_cardId_show_int: "reviewQ_cardId d = Some (show_int i) \<Longrightarrow> loaded_cardId d = Fin i"
  by (simp add: loaded_cardId_def js_or_def show_int_nonempty string_to_number_show_int)

lemma loaded_cardId_empty:
  "reviewQ_cardId d = None \<or> reviewQ_cardId d = Some [] \<Longrightarrow> loaded_cardId d = Fin 0"
  by (auto simp: loaded_cardId_def js_or_def)

lemma field_num_truthy: "field v name = JNum n \<Longrightarrow> name \<noteq> ''length'' \<Longrightarrow> truthy v"
  by (cases v) (auto simp: field_def split: if_splits)

lemma loadNext_eq:
  "api_answer (pending w) = Inr v \<Longrightarrow>
   loadNext e (d, w) =
     (Inr (),
      (if \<not> truthy v
       then d\<lparr>reviewQ_textContent := nothing_due, reviewA_hidden := True,
               reviewA_textContent := [], reviewQ_cardId := Some []\<rparr>
       else d\<lparr>reviewQ_textContent := as_textContent (field v ''question''),
               reviewA_textContent := as_textContent (field v ''answer''),
               reviewA_hidden := True,
               reviewQ_cardId := Some (to_string (field v ''id''))\<rparr>),
      \<lparr>pending = tl (pending w),
        sent = sent w @ [(API e @ ''/review/next?''
                 @ URLSearchParams ((''deck_id'', num_to_string (string_to_number (deckSelect_value d)))
                      # (if trim (tagFilter_value d) \<noteq> [] then [(''tag'', trim (tagFilter_value d))] else [])),
               no_opts)]\<rparr>)"
  by (simp add: loadNext_def api_eq Let_def)

lemma loadNext_fails:
  "api_answer (pending w) = Inl err \<Longrightarrow>
   fst (loadNext e (d, w)) = Inl err \<and> fst (snd (loadNext e (d, w))) = d"
  by (simp add: loadNext_def api_eq Let_def)

text \<open>
  C3. For every page (so every selected deck and tag filter): when the backend answers
  \<^verbatim>\<open>/review/next\<close> with an empty result, a value that \<^verbatim>\<open>if (!card)\<close> takes as
  absent such as \<^verbatim>\<open>null\<close>, \<^verbatim>\<open>loadNext\<close> returns without throwing, stores the empty
  card identifier, which \<^verbatim>\<open>submitResult\<close> reads as no card, and hides the answer; when
  it answers with a card, \<^verbatim>\<open>loadNext\<close> stores the string of the card's \<^verbatim>\<open>id\<close>, which
  for a number reads back as that number, and hides the answer.
\<close>

theorem loadNext_transitions:
  assumes "api_answer (pending w) = Inr v"
  shows "fst (loadNext e (d, w)) = Inr ()
       \<and> reviewA_hidden (fst (snd (loadNext e (d, w))))
       \<and> (\<not> truthy v \<longrightarrow>
            reviewQ_cardId (fst (snd (loadNext e (d, w)))) = Some []
            \<and> loaded_cardId (fst (snd (loadNext e (d, w)))) = Fin 0)
       \<and> (truthy v \<longrightarrow>
            reviewQ_cardId (fst (snd (loadNext e (d, w)))) = Some (to_string (field v ''id'')))
       \<and> (field v ''id'' = JNum (Fin i) \<longrightarrow>
            reviewQ_cardId (fst (snd (loadNext e (d, w)))) = Some (show_int i)
            \<and> loaded_cardId (fst (snd (loadNext e (d, w)))) = Fin i)"
proof -
  let ?d' = "fst (snd (loadNext e (d, w)))"
  have r: "fst (loadNext e (d, w)) = Inr ()" and h: "reviewA_hidden ?d'"
    using assms by (simp_all add: loadNext_eq)
  have e1: "reviewQ_cardId ?d' = Some []" if "\<not> truthy v"
    using assms that by (simp add: loadNext_eq)
  have e2: "loaded_cardId ?d' = Fin 0" if "\<not> truthy v"
    using e1 [OF that] by (simp add: loaded_cardId_empty)
  have l1: "reviewQ_cardId ?d' = Some (to_string (field v ''id''))" if "truthy v"
    using assms that by (simp add: loadNext_eq)
  have l2: "reviewQ_cardId ?d' = Some (show_int i)" if "field v ''id'' = JNum (Fin i)"
    using l1 [OF field_num_truthy [OF that]] that by (simp add: num_to_string_def)
  have l3: "loaded_cardId ?d' = Fin i" if "field v ''id'' = JNum (Fin i)"
    using l2 [OF that] by (rule loaded_cardId_show_int)
  from r h e1 e2 l1 l2 l3 show ?thesis by blast
qed

theorem loadNext_transitions_witness:
  "fst (loadNext (app_js id) (empty_page, script [json_response JNull])) = Inr ()
   \<and> reviewQ_cardId (fst (snd (loadNext (app_js id) (empty_page, script [json_response JNull])))) = Some []
   \<and> reviewQ_cardId (fst (snd (loadNext (app_js id)
        (empty_page, script [json_response (JObj [(''id'', JNum (Fin 42))])])))) = Some ''42''
   \<and> loaded_cardId (fst (snd (loadNext (app_js id)
        (empty_page, script [json_response (JObj [(''id'', JNum (Fin 42))])])))) = Fin 42"
  using loadNext_transitions [of "script [json_response JNull]" JNull "app_js id" empty_page 0]
    loadNext_transitions [of "script [json_response (JObj [(''id'', JNum (Fin 42))])]"
      "JObj [(''id'', JNum (Fin 42))]" "app_js id" empty_page 42]
  by (simp add: script_def json_response_def api_answer_def ok_def declares_json_def field_def
        num_to_string_def show_int_def show_nat.simps digit_char_def)

section \<open>Starting a dialogue and replying\<close>

text \<open>
  C8. \<^verbatim>\<open>startSidekick\<close> makes no request when the topic is empty after trimming. For a
  topic that is not, once the backend has answered with a value that has properties,
  the session token is the \<^verbatim>\<open>session_id\<close> of the answer and the transcript is the
  backend's first question alone: nothing of the transcript before is kept, whatever the
  state of the dialogue was.
\<close>

theorem startSidekick_fresh_session:
  "(trim (sidekickTopic_value d) = [] \<longrightarrow> startSidekick e (d, w) = (Inr (), d, w))
   \<and> (trim (sidekickTopic_value d) \<noteq> [] \<and> api_answer (pending w) = Inr res
        \<and> res \<noteq> JNull \<and> res \<noteq> JUndefined \<longrightarrow>
        fst (startSidekick e (d, w)) = Inr ()
        \<and> SOC_SESSION (fst (snd (startSidekick e (d, w)))) = field res ''session_id''
        \<and> chatBox_innerHTML (fst (snd (startSidekick e (d, w))))
            = ''<div><b>Gemini:</b> '' @ to_string (field res ''question'') @ ''</div>''
        \<and> sidekickOutput_value (fst (snd (startSidekick e (d, w)))) = []
        \<and> sent (snd (snd (startSidekick e (d, w))))
            = sent w @ [(API e @ ''/socratic/start'',
                         post_json (JObj [(''topic'', JStr (trim (sidekickTopic_value d)))]))])"
  by (simp add: startSidekick_def api_eq Let_def get_field)

theorem startSidekick_fresh_session_witness:
  "sent (snd (snd (startSidekick (app_js id) (active_page\<lparr>sidekickTopic_value := ''  ''\<rparr>, script [])))) = []
   \<and> SOC_SESSION (fst (snd (startSidekick (app_js id)
        (active_page\<lparr>sidekickTopic_value := ''Photosynthesis'', chatBox_innerHTML := ''<div>old</div>''\<rparr>,
         script [json_response (JObj [(''session_id'', JStr ''s2''), (''question'', JStr ''Q1'')])])))) = JStr ''s2''
   \<and> chatBox_innerHTML (fst (snd (startSidekick (app_js id)
        (active_page\<lparr>sidekickTopic_value := ''Photosynthesis'', chatBox_innerHTML := ''<div>old</div>''\<rparr>,
         script [json_response (JObj [(''session_id'', JStr ''s2''), (''question'', JStr ''Q1'')])]))))
       = ''<div><b>Gemini:</b> Q1</div>''"
  using startSidekick_fresh_session [where d = "active_page\<lparr>sidekickTopic_value := ''  ''\<rparr>" and e = "app_js id" and w = "script []"]
    startSidekick_fresh_session [where d = "active_page\<lparr>sidekickTopic_value := ''Photosynthesis'', chatBox_innerHTML := ''<div>old</div>''\<rparr>"
      and w = "script [json_response (JObj [(''session_id'', JStr ''s2''), (''question'', JStr ''Q1'')])]"
      and res = "JObj [(''session_id'', JStr ''s2''), (''question'', JStr ''Q1'')]" and e = "app_js id"]
  by (simp add: script_def json_response_def api_answer_def ok_def declares_json_def field_def
        trim_def is_space_def)

text \<open>
  C1 as stated, at a dialogue whose last reply had \<^verbatim>\<open>done\<close> set: the note has been
  stored, and the next \<^verbatim>\<open>sendSidekickAnswer\<close> still posts to \<^verbatim>\<open>/socratic/reply\<close>.
\<close>

theorem sendSidekickAnswer_after_done_counterexample:
  "sidekickOutput_value (fst complete_state) = ''note''
   \<and> sent (snd complete_state)
       = [(''/api/socratic/reply'', post_json (JObj [(''session_id'', JStr ''s1''), (''answer'', JStr ''because'')]))]
   \<and> sent (snd (snd (sendSidekickAnswer (app_js id)
          ((fst complete_state)\<lparr>chatInput_value := ''more''\<rparr>, snd complete_state))))
       = sent (snd complete_state)
         @ [(''/api/socratic/reply'', post_json (JObj [(''session_id'', JStr ''s1''), (''answer'', JStr ''more'')]))]"
  by (simp add: complete_state_def sendSidekickAnswer_def api_eq Let_def app_js_def active_page_def
        empty_page_def script_def done_reply_def json_response_def api_answer_def ok_def
        declares_json_def trim_def is_space_def field_def as_value_def js_or_def)

text \<open>
  C1, amended. \<^verbatim>\<open>sendSidekickAnswer\<close> makes no request and changes nothing when there
  is no session token, and when the answer is empty after trimming. The script keeps no
  mark of completion: a reply never changes the token, and with a token and an answer
  it posts the answer to \<^verbatim>\<open>/socratic/reply\<close>, also after a reply that had \<^verbatim>\<open>done\<close> set.
\<close>

theorem sendSidekickAnswer_guards:
  "(\<not> truthy (SOC_SESSION d) \<longrightarrow> sendSidekickAnswer e (d, w) = (Inr (), d, w))
   \<and> (trim (chatInput_value d) = [] \<longrightarrow> sendSidekickAnswer e (d, w) = (Inr (), d, w))
   \<and> (truthy (SOC_SESSION d) \<and> trim (chatInput_value d) \<noteq> [] \<longrightarrow>
        sent (snd (snd (sendSidekickAnswer e (d, w))))
          = sent w @ [(API e @ ''/socratic/reply'',
                       post_json (JObj [(''session_id'', SOC_SESSION d),
                                        (''answer'', JStr (trim (chatInput_value d)))]))])
   \<and> SOC_SESSION (fst (snd (sendSidekickAnswer e (d, w)))) = SOC_SESSION d"
  by (auto simp: sendSidekickAnswer_def api_eq Let_def split: sum.splits)

theorem sendSidekickAnswer_guards_witness:
  "sendSidekickAnswer (app_js id) (empty_page\<lparr>chatInput_value := ''because''\<rparr>, script [done_reply])
     = (Inr (), empty_page\<lparr>chatInput_value := ''because''\<rparr>, script [done_reply])
   \<and> sent (snd (snd (sendSidekickAnswer (app_js id) (active_page, script [done_reply]))))
       = [(''/api/socratic/reply'', post_json (JObj [(''session_id'', JStr ''s1''), (''answer'', JStr ''because'')]))]"
  using sendSidekickAnswer_guards [where d = "empty_page\<lparr>chatInput_value := ''because''\<rparr>" and e = "app_js id" and w = "script [done_reply]"]
    sendSidekickAnswer_guards [where d = active_page and e = "app_js id" and w = "script [done_reply]"]
  by (simp add: active_page_def empty_page_def app_js_def script_def trim_def is_space_def)

section \<open>Submitting a grade\<close>

lemma api_fails_iff: "api_fails ps \<longleftrightarrow> (\<exists>err. api_answer ps = Inl err)"
  by (cases "api_answer ps") (auto simp: api_fails_def)

lemma api_fails_not: "\<not> api_fails ps \<longleftrightarrow> (\<exists>v. api_answer ps = Inr v)"
  by (cases "api_answer ps") (auto simp: api_fails_def)

lemma cards_forEach_review: "review_session (snd (cards_forEach e cs d)) = review_session d"
  by (induction cs arbitrary: d) (auto simp: review_session_def)

lemma refreshCards_world:
  "snd (snd (refreshCards e (d, w))) =
     \<lparr>pending = tl (pending w),
      sent = sent w @ [(API e @ ''/cards?''
               @ URLSearchParams
                  ((if num_truthy (string_to_number (deckSelect_value d))
                    then [(''deck_id'', num_to_string (string_to_number (deckSelect_value d)))] else [])
                   @ (if trim (tagFilter_value d) \<noteq> [] then [(''tag'', trim (tagFilter_value d))] else [])),
             no_opts)]\<rparr>"
  by (simp add: refreshCards_def api_eq Let_def case_prod_beta split: sum.splits jsval.splits)

lemma refreshCards_review: "review_session (fst (snd (refreshCards e (d, w)))) = review_session d"
proof (cases "api_answer (pending w)")
  case (Inl err)
  then show ?thesis by (simp add: refreshCards_def api_eq Let_def)
next
  case (Inr cards)
  show ?thesis
  proof (cases cards)
    case (JArr cs)
    with Inr cards_forEach_review [of e cs "d\<lparr>cardsTbody := []\<rparr>"] show ?thesis
      by (simp add: refreshCards_def api_eq Let_def case_prod_beta review_session_def)
  qed (use Inr in \<open>simp_all add: refreshCards_def api_eq Let_def review_session_def\<close>)
qed

lemma refreshStats_world:
  "snd (snd (refreshStats e (d, w))) =
     \<lparr>pending = tl (pending w),
      sent = sent w @ [(API e @ ''/reflect/stats?''
               @ URLSearchParams
                  (if num_truthy (string_to_number (deckSelect_value d))
                   then [(''deck_id'', num_to_string (string_to_number (deckSelect_value d)))] else []),
             no_opts)]\<rparr>"
  by (simp add: refreshStats_def api_eq Let_def split: sum.splits)

lemma refreshStats_review: "review_session (fst (snd (refreshStats e (d, w)))) = review_session d"
  by (simp add: refreshStats_def api_eq Let_def review_session_def split: sum.splits)

lemma loadNext_world:
  "snd (snd (loadNext e (d, w))) =
     \<lparr>pending = tl (pending w),
      sent = sent w @ [(API e @ ''/review/next?''
               @ URLSearchParams ((''deck_id'', num_to_string (string_to_number (deckSelect_value d)))
                    # (if trim (tagFilter_value d) \<noteq> [] then [(''tag'', trim (tagFilter_value d))] else [])),
             no_opts)]\<rparr>"
  by (simp add: loadNext_def api_eq Let_def split: sum.splits)

text \<open>The rest of a submission once the grade has been posted.\<close>

lemma submitResult_eq:
  "num_truthy (loaded_cardId d) \<Longrightarrow>
   submitResult e r (d, w) =
     (let w1 = \<lparr>pending = tl (pending w),
                sent = sent w @ [(API e @ ''/review/submit'',
                   post_json (JObj [(''card_id'', JNum (loaded_cardId d)), (''result'', JStr r)]))]\<rparr>
      in case api_answer (pending w) of
           Inl err \<Rightarrow> (Inl err, d, w1)
         | Inr v \<Rightarrow>
             (case loadNext e (d, w1) of
                (Inl err, s1) \<Rightarrow> (Inl err, s1)
              | (Inr u1, s1) \<Rightarrow>
                  (case refreshCards e s1 of
                     (Inl err, s2) \<Rightarrow> (Inl err, s2)
                   | (Inr u2, s2) \<Rightarrow> refreshStats e s2)))"
  by (simp add: submitResult_def api_eq Let_def split: sum.splits)

lemma submitResult_cases:
  assumes "num_truthy (loaded_cardId d)" and "api_answer (pending w) = Inr v"
  obtains rest q where
    "sent (snd (snd (submitResult e r (d, w)))) =
       sent w @ (API e @ ''/review/submit'',
                 post_json (JObj [(''card_id'', JNum (loaded_cardId d)), (''result'', JStr r)]))
              # (API e @ ''/review/next?'' @ q, no_opts) # rest"
    "list_all (\<lambda>x. snd x = no_opts) rest"
    "review_session (fst (snd (submitResult e r (d, w)))) =
       review_session (fst (snd (loadNext e (d,
          \<lparr>pending = tl (pending w),
            sent = sent w @ [(API e @ ''/review/submit'',
               post_json (JObj [(''card_id'', JNum (loaded_cardId d)), (''result'', JStr r)]))]\<rparr>))))"
proof -
  let ?w1 = "\<lparr>pending = tl (pending w),
            sent = sent w @ [(API e @ ''/review/submit'',
               post_json (JObj [(''card_id'', JNum (loaded_cardId d)), (''result'', JStr r)]))]\<rparr>"
  obtain r1 d1 w1' where l: "loadNext e (d, ?w1) = (r1, d1, w1')" by (metis prod_cases3)
  obtain r2 d2 w2 where c: "refreshCards e (d1, w1') = (r2, d2, w2)" by (metis prod_cases3)
  obtain r3 d3 w3 where t: "refreshStats e (d2, w2) = (r3, d3, w3)" by (metis prod_cases3)
  from loadNext_world [of e d ?w1] l obtain q where
    w1': "sent w1' = sent ?w1 @ [(API e @ ''/review/next?'' @ q, no_opts)]" by auto
  from refreshCards_world [of e d1 w1'] c obtain q2 where
    w2: "sent w2 = sent w1' @ [(API e @ q2, no_opts)]" by auto
  from refreshStats_world [of e d2 w2] t obtain q3 where
    w3: "sent w3 = sent w2 @ [(API e @ q3, no_opts)]" by auto
  from refreshCards_review [of e d1 w1'] c have rc: "review_session d2 = review_session d1" by simp
  from refreshStats_review [of e d2 w2] t have rs: "review_session d3 = review_session d2" by simp
  have eq: "submitResult e r (d, w) =
      (case r1 of Inl err \<Rightarrow> (Inl err, d1, w1')
       | Inr u1 \<Rightarrow> (case r2 of Inl err \<Rightarrow> (Inl err, d2, w2) | Inr u2 \<Rightarrow> (r3, d3, w3)))"
    using assms l c t by (simp add: submitResult_eq split: sum.splits)
  show ?thesis
  proof (cases r1)
    case (Inl err)
    with eq l w1' show ?thesis by (intro that [of q "[]"]) simp_all
  next
    case r1: (Inr u1)
    show ?thesis
    proof (cases r2)
      case (Inl err)
      with eq r1 l w1' w2 rc show ?thesis
        by (intro that [of q "[(API e @ q2, no_opts)]"]) simp_all
    next
      case (Inr u2)
      with eq r1 l w1' w2 w3 rc rs show ?thesis
        by (intro that [of q "[(API e @ q2, no_opts), (API e @ q3, no_opts)]"]) simp_all
    qed
  qed
qed

lemma loaded_cardId_showAnswer: "loaded_cardId (showAnswer d) = loaded_cardId d"
  by (simp add: loaded_cardId_def showAnswer_def)

lemma submitResult_unloaded: "\<not> num_truthy (loaded_cardId d) \<Longrightarrow> submitResult e r (d, w) = (Inr (), d, w)"
  by (simp add: submitResult_def)

lemma loadNext_fails_eq:
  "api_answer (pending w) = Inl err \<Longrightarrow>
   loadNext e (d, w) =
     (Inl err, d,
      \<lparr>pending = tl (pending w),
        sent = sent w @ [(API e @ ''/review/next?''
                 @ URLSearchParams ((''deck_id'', num_to_string (string_to_number (deckSelect_value d)))
                      # (if trim (tagFilter_value d) \<noteq> [] then [(''tag'', trim (tagFilter_value d))] else [])),
               no_opts)]\<rparr>)"
  by (simp add: loadNext_def api_eq Let_def)

lemma submitResult_failure_page:
  assumes "api_fails (pending w) \<or> api_fails (tl (pending w))"
  shows "fst (snd (submitResult e r (d, w))) = d"
proof (cases "num_truthy (loaded_cardId d)")
  case False
  then show ?thesis by (simp add: submitResult_unloaded)
next
  case True
  show ?thesis
  proof (cases "api_answer (pending w)")
    case (Inl err)
    with True show ?thesis by (simp add: submitResult_eq)
  next
    case (Inr v)
    then have "\<not> api_fails (pending w)" by (simp add: api_fails_def)
    with assms have "api_fails (tl (pending w))" by simp
    then obtain err where "api_answer (tl (pending w)) = Inl err" by (auto simp: api_fails_iff)
    then show ?thesis
      using True Inr by (simp add: submitResult_eq loadNext_fails_eq)
  qed
qed

lemma submitResult_log:
  assumes "loaded_cardId d = Fin i" and "i \<noteq> 0"
  shows "\<exists>rest. sent (snd (snd (submitResult e r (d, w)))) =
            sent w @ (API e @ ''/review/submit'',
                      post_json (JObj [(''card_id'', JNum (Fin i)), (''result'', JStr r)])) # rest
          \<and> list_all (\<lambda>x. snd x = no_opts) rest
          \<and> (\<not> api_fails (pending w) \<longrightarrow>
               (\<exists>q. take 1 rest = [(API e @ ''/review/next?'' @ q, no_opts)])
               \<and> review_session (fst (snd (submitResult e r (d, w)))) =
                   review_session (fst (snd (loadNext e (d,
                     \<lparr>pending = tl (pending w),
                       sent = sent w @ [(API e @ ''/review/submit'',
                         post_json (JObj [(''card_id'', JNum (Fin i)), (''result'', JStr r)]))]\<rparr>))))
               \<and> (api_answer (tl (pending w)) = Inr v' \<longrightarrow>
                    reviewQ_cardId (fst (snd (submitResult e r (d, w)))) =
                      Some (if truthy v' then to_string (field v' ''id'') else [])))"
proof -
  from assms have cid: "loaded_cardId d = Fin i" and ld: "num_truthy (loaded_cardId d)"
    by simp_all
  show ?thesis
  proof (cases "api_answer (pending w)")
    case (Inl err)
    then have "api_fails (pending w)" by (simp add: api_fails_def)
    moreover from Inl ld cid have "sent (snd (snd (submitResult e r (d, w)))) =
        sent w @ [(API e @ ''/review/submit'',
                   post_json (JObj [(''card_id'', JNum (Fin i)), (''result'', JStr r)]))]"
      by (simp add: submitResult_eq)
    ultimately show ?thesis by simp
  next
    case (Inr v)
    from submitResult_cases [OF ld Inr, of e r] obtain rest q where
      "sent (snd (snd (submitResult e r (d, w)))) =
         sent w @ (API e @ ''/review/submit'',
                 post_json (JObj [(''card_id'', JNum (loaded_cardId d)), (''result'', JStr r)]))
              # (API e @ ''/review/next?'' @ q, no_opts) # rest"
      "list_all (\<lambda>x. snd x = no_opts) rest"
      "review_session (fst (snd (submitResult e r (d, w)))) =
       review_session (fst (snd (loadNext e (d,
          \<lparr>pending = tl (pending w),
            sent = sent w @ [(API e @ ''/review/submit'',
               post_json (JObj [(''card_id'', JNum (loaded_cardId d)), (''result'', JStr r)]))]\<rparr>))))"
      by blast
    then show ?thesis
      unfolding cid
      by (intro exI [of _ "(API e @ ''/review/next?'' @ q, no_opts) # rest"])
         (auto simp: loadNext_eq review_session_def)
  qed
qed

text \<open>
  C4 as stated, at the card 42 when the post of the grade is answered and the query for
  the next card is rejected: \<^verbatim>\<open>submitResult\<close> has posted the grade and asked for the
  next card, it throws, and the session is still loaded with the card 42.
\<close>

theorem submitResult_requery_fails_counterexample:
  "fst (submitResult (app_js id) ''hard'' (loaded_page, script [json_response JNull, Rejected]))
     = Inl NetworkError
   \<and> map fst (sent (snd (snd (submitResult (app_js id) ''hard''
         (loaded_page, script [json_response JNull, Rejected])))))
     = [''/api/review/submit'', ''/api/review/next?deck_id=0'']
   \<and> reviewQ_cardId (fst (snd (submitResult (app_js id) ''hard''
         (loaded_page, script [json_response JNull, Rejected])))) = Some ''42''
   \<and> loaded_cardId (fst (snd (submitResult (app_js id) ''hard''
         (loaded_page, script [json_response JNull, Rejected])))) = Fin 42"
  by (simp add: submitResult_def loadNext_def api_eq Let_def app_js_def loaded_page_def
        empty_page_def script_def api_answer_def json_response_def ok_def declares_json_def
        loaded_cardId_def js_or_def string_to_number_def trim_def is_space_def parse_nat_def
        digit_val_def num_to_string_def show_int_def show_nat.simps digit_char_def
        form_encode_def form_encode_byte_def form_keep_def)

text \<open>
  C4, amended. With a card loaded, which is when \<^verbatim>\<open>Number(dataset.cardId)\<close> is a number
  \<open>i\<close> other than 0, as it is after \<^verbatim>\<open>loadNext\<close> has stored a card of identifier
  \<open>i\<close>, and for every result string \<open>r\<close>, \<^verbatim>\<open>submitResult\<close> first posts
  \<^verbatim>\<open>{card_id: i, result: r}\<close> to \<^verbatim>\<open>/review/submit\<close>, and every request that it makes
  after that is a GET, so the grade is posted exactly once. When the post succeeds, the
  next request is the one of \<^verbatim>\<open>loadNext\<close> to \<^verbatim>\<open>/review/next\<close>, and the review session
  at the end is the one that this \<^verbatim>\<open>loadNext\<close> leaves: when the backend answers it, the
  identifier stored is the one of the answer, or empty, and nothing of the graded card is
  kept; when that query fails, the page is as before the submission and the graded card
  is still loaded.
\<close>

theorem submitResult_posts_once:
  assumes "loaded_cardId d = Fin i" and "i \<noteq> 0"
  shows "(\<exists>rest. sent (snd (snd (submitResult e r (d, w)))) =
            sent w @ (API e @ ''/review/submit'',
                      post_json (JObj [(''card_id'', JNum (Fin i)), (''result'', JStr r)])) # rest
          \<and> list_all (\<lambda>x. snd x = no_opts) rest
          \<and> (\<not> api_fails (pending w) \<longrightarrow>
               (\<exists>q. take 1 rest = [(API e @ ''/review/next?'' @ q, no_opts)])
               \<and> review_session (fst (snd (submitResult e r (d, w)))) =
                   review_session (fst (snd (loadNext e (d,
                     \<lparr>pending = tl (pending w),
                       sent = sent w @ [(API e @ ''/review/submit'',
                         post_json (JObj [(''card_id'', JNum (Fin i)), (''result'', JStr r)]))]\<rparr>))))
               \<and> (api_answer (tl (pending w)) = Inr v' \<longrightarrow>
                    reviewQ_cardId (fst (snd (submitResult e r (d, w)))) =
                      Some (if truthy v' then to_string (field v' ''id'') else []))))
       \<and> (api_fails (tl (pending w)) \<longrightarrow>
            fst (snd (submitResult e r (d, w))) = d
            \<and> loaded_cardId (fst (snd (submitResult e r (d, w)))) = Fin i)"
proof -
  have "fst (snd (submitResult e r (d, w))) = d
      \<and> loaded_cardId (fst (snd (submitResult e r (d, w)))) = Fin i"
    if "api_fails (tl (pending w))"
    using that assms(1) by (simp add: submitResult_failure_page)
  with submitResult_log [OF assms, of e r w v'] show ?thesis by blast
qed

theorem submitResult_posts_once_witness:
  "(\<exists>rest. sent (snd (snd (submitResult (app_js id) ''hard''
        (loaded_page, script [json_response JNull, json_response JNull]))))
      = (API (app_js id) @ ''/review/submit'',
         post_json (JObj [(''card_id'', JNum (Fin 42)), (''result'', JStr ''hard'')])) # rest
      \<and> list_all (\<lambda>x. snd x = no_opts) rest)
   \<and> api_fails (tl (pending (script [json_response JNull, Rejected])))
   \<and> fst (snd (submitResult (app_js id) ''hard'' (loaded_page, script [json_response JNull, Rejected])))
       = loaded_page"
proof -
  have "reviewQ_cardId loaded_page = Some (show_int 42)"
    by (simp add: loaded_page_def show_int_def show_nat.simps digit_char_def)
  then have h1: "loaded_cardId loaded_page = Fin 42"
    by (rule loaded_cardId_show_int)
  have h2: "(42::int) \<noteq> 0" by simp
  have f: "api_fails (tl (pending (script [json_response JNull, Rejected])))"
    by (simp add: script_def api_fails_def api_answer_def)
  from submitResult_posts_once [OF h1 h2, of "app_js id" "''hard''"
      "script [json_response JNull, json_response JNull]"]
    submitResult_posts_once [OF h1 h2, of "app_js id" "''hard''"
      "script [json_response JNull, Rejected]"] f
  show ?thesis by (auto simp: script_def)
qed

lemma showAnswer_submitResult_same:
  assumes "num_truthy (loaded_cardId d)"
  shows "fst (submitResult e r (showAnswer d, w)) = fst (submitResult e r (d, w))
       \<and> snd (snd (submitResult e r (showAnswer d, w))) = snd (snd (submitResult e r (d, w)))
       \<and> (\<not> api_fails (pending w) \<and> \<not> api_fails (tl (pending w)) \<longrightarrow>
            fst (snd (submitResult e r (showAnswer d, w))) = fst (snd (submitResult e r (d, w))))
       \<and> (\<not> api_fails (pending w) \<and> api_answer (tl (pending w)) = Inr v' \<and> \<not> truthy v' \<longrightarrow>
            reviewQ_cardId (fst (snd (submitResult e r (d, w)))) = Some []
            \<and> reviewA_hidden (fst (snd (submitResult e r (d, w)))))"
proof -
  let ?w1 = "\<lparr>pending = tl (pending w),
            sent = sent w @ [(API e @ ''/review/submit'',
               post_json (JObj [(''card_id'', JNum (loaded_cardId d)), (''result'', JStr r)]))]\<rparr>"
  have ld: "num_truthy (loaded_cardId (showAnswer d))"
    using assms by (simp add: loaded_cardId_showAnswer)
  have full: "submitResult e r (showAnswer d, w) = submitResult e r (d, w)"
    if a: "api_answer (pending w) = Inr v" and b: "api_answer (tl (pending w)) = Inr u" for v u
  proof -
    have a': "api_answer (pending ?w1) = Inr u" using b by simp
    have "loadNext e (showAnswer d, ?w1) = loadNext e (d, ?w1)"
      unfolding loadNext_eq [OF a'] by (simp add: showAnswer_def)
    then show ?thesis
      using assms a by (simp add: submitResult_eq loaded_cardId_showAnswer)
  qed
  have part: "fst (submitResult e r (showAnswer d, w)) = fst (submitResult e r (d, w))
       \<and> snd (snd (submitResult e r (showAnswer d, w))) = snd (snd (submitResult e r (d, w)))"
  proof (cases "api_answer (pending w)")
    case (Inl err)
    then show ?thesis using assms by (simp add: submitResult_eq loaded_cardId_showAnswer)
  next
    case a: (Inr v)
    show ?thesis
    proof (cases "api_answer (tl (pending w))")
      case (Inr u)
      with a show ?thesis by (simp add: full)
    next
      case (Inl err)
      then have a': "api_answer (pending ?w1) = Inl err" by simp
      show ?thesis
        using assms a
        by (simp add: submitResult_eq loaded_cardId_showAnswer loadNext_fails_eq [OF a'])
           (simp add: showAnswer_def)
    qed
  qed
  have page: "fst (snd (submitResult e r (showAnswer d, w))) = fst (snd (submitResult e r (d, w)))"
    if "\<not> api_fails (pending w)" "\<not> api_fails (tl (pending w))"
    using that full by (auto simp: api_fails_not)
  have empty: "reviewQ_cardId (fst (snd (submitResult e r (d, w)))) = Some []
            \<and> reviewA_hidden (fst (snd (submitResult e r (d, w))))"
    if n: "\<not> api_fails (pending w)" and b: "api_answer (tl (pending w)) = Inr v'" and t: "\<not> truthy v'"
  proof -
    from n obtain v where a: "api_answer (pending w) = Inr v" by (auto simp: api_fails_not)
    have a': "api_answer (pending ?w1) = Inr v'" using b by simp
    from submitResult_cases [OF assms a, of e r]
    have "review_session (fst (snd (submitResult e r (d, w)))) =
       review_session (fst (snd (loadNext e (d, ?w1))))" by blast
    then show ?thesis using t by (simp add: loadNext_eq [OF a'] review_session_def)
  qed
  from part page empty show ?thesis by blast
qed

text \<open>
  C5 as stated, at the card 42 with its answer hidden. When the post of the grade is
  rejected, \<^verbatim>\<open>showAnswer\<close> followed by \<^verbatim>\<open>submitResult\<close> ends with the answer shown and
  \<^verbatim>\<open>submitResult\<close> alone with the answer hidden: two different pages. When the post is
  answered and the card 7 is due next, both end loaded with the card 7, not empty.
\<close>

theorem showAnswer_submitResult_counterexample:
  "reviewA_hidden loaded_page
   \<and> \<not> reviewA_hidden (fst (snd (submitResult (app_js id) ''easy''
            (showAnswer loaded_page, script [Rejected]))))
   \<and> reviewA_hidden (fst (snd (submitResult (app_js id) ''easy'' (loaded_page, script [Rejected]))))
   \<and> fst (snd (submitResult (app_js id) ''easy'' (showAnswer loaded_page, script [Rejected])))
       \<noteq> fst (snd (submitResult (app_js id) ''easy'' (loaded_page, script [Rejected])))
   \<and> reviewQ_cardId (fst (snd (submitResult (app_js id) ''easy''
          (showAnswer loaded_page,
           script [json_response JNull, json_response (JObj [(''id'', JNum (Fin 7))])]))))
       = Some ''7''
   \<and> reviewQ_cardId (fst (snd (submitResult (app_js id) ''easy''
          (loaded_page,
           script [json_response JNull, json_response (JObj [(''id'', JNum (Fin 7))])]))))
       = Some ''7''"
proof -
  have f: "api_fails (pending (script [Rejected])) \<or> api_fails (tl (pending (script [Rejected])))"
    by (simp add: script_def api_fails_def api_answer_def)
  have a: "fst (snd (submitResult (app_js id) ''easy'' (showAnswer loaded_page, script [Rejected])))
      = showAnswer loaded_page"
    and b: "fst (snd (submitResult (app_js id) ''easy'' (loaded_page, script [Rejected]))) = loaded_page"
    using f by (rule submitResult_failure_page)+
  have h: "reviewA_hidden loaded_page" "\<not> reviewA_hidden (showAnswer loaded_page)"
    by (simp_all add: loaded_page_def empty_page_def showAnswer_def)
  from h have ne: "showAnswer loaded_page \<noteq> loaded_page" by auto
  have ld1: "num_truthy (loaded_cardId loaded_page)"
    by (simp add: loaded_cardId_def loaded_page_def js_or_def
          string_to_number_def trim_def is_space_def parse_nat_def digit_val_def)
  then have ld2: "num_truthy (loaded_cardId (showAnswer loaded_page))"
    by (simp only: loaded_cardId_showAnswer)
  have ans: "api_answer (pending (script [json_response JNull, json_response (JObj [(''id'', JNum (Fin 7))])]))
       = Inr JNull"
    by (simp add: script_def api_answer_def json_response_def ok_def declares_json_def)
  have seven: "reviewQ_cardId (fst (snd (submitResult (app_js id) ''easy''
          (p, script [json_response JNull, json_response (JObj [(''id'', JNum (Fin 7))])]))))
       = Some ''7''" if "num_truthy (loaded_cardId p)" for p
  proof -
    from submitResult_cases [OF that ans, of "app_js id" "''easy''"]
    have "review_session (fst (snd (submitResult (app_js id) ''easy''
          (p, script [json_response JNull, json_response (JObj [(''id'', JNum (Fin 7))])])))) =
       review_session (fst (snd (loadNext (app_js id) (p,
          \<lparr>pending = tl (pending (script [json_response JNull, json_response (JObj [(''id'', JNum (Fin 7))])])),
            sent = sent (script [json_response JNull, json_response (JObj [(''id'', JNum (Fin 7))])])
               @ [(API (app_js id) @ ''/review/submit'',
               post_json (JObj [(''card_id'', JNum (loaded_cardId p)), (''result'', JStr ''easy'')]))]\<rparr>))))"
      by blast
    then show ?thesis
      by (simp add: review_session_def loadNext_def api_eq Let_def script_def api_answer_def
            json_response_def ok_def declares_json_def field_def num_to_string_def show_int_def
            show_nat.simps digit_char_def)
  qed
  from a b h ne seven [OF ld2] seven [OF ld1] show ?thesis by simp
qed

text \<open>
  C5, amended. With a card loaded, \<^verbatim>\<open>showAnswer\<close> followed by \<^verbatim>\<open>submitResult\<close> sends the
  same requests and returns or throws the same as \<^verbatim>\<open>submitResult\<close> alone, whatever the
  backend answers: grading neither needs the answer shown nor changes with it. When the post
  and the query for the next card are both answered, the two end in the same page, with
  the answer hidden: the empty state with no identifier when no further card is due, and
  the next card loaded when one is. When the post or that query fails, each of the two
  ends in the page it had before the submission, so they differ in whether the answer is
  shown, and in nothing else.
\<close>

theorem showAnswer_submitResult:
  assumes "num_truthy (loaded_cardId d)"
  shows "fst (submitResult e r (showAnswer d, w)) = fst (submitResult e r (d, w))
       \<and> snd (snd (submitResult e r (showAnswer d, w))) = snd (snd (submitResult e r (d, w)))
       \<and> (\<not> api_fails (pending w) \<and> \<not> api_fails (tl (pending w)) \<longrightarrow>
            fst (snd (submitResult e r (showAnswer d, w))) = fst (snd (submitResult e r (d, w)))
            \<and> reviewA_hidden (fst (snd (submitResult e r (d, w)))))
       \<and> (\<not> api_fails (pending w) \<and> api_answer (tl (pending w)) = Inr v' \<and> \<not> truthy v' \<longrightarrow>
            reviewQ_cardId (fst (snd (submitResult e r (d, w)))) = Some []
            \<and> reviewA_hidden (fst (snd (submitResult e r (d, w)))))
       \<and> (\<not> api_fails (pending w) \<and> api_answer (tl (pending w)) = Inr v' \<and> truthy v' \<longrightarrow>
            reviewQ_cardId (fst (snd (submitResult e r (d, w)))) = Some (to_string (field v' ''id'')))
       \<and> (api_fails (pending w) \<or> api_fails (tl (pending w)) \<longrightarrow>
            fst (snd (submitResult e r (showAnswer d, w))) = showAnswer d
            \<and> fst (snd (submitResult e r (d, w))) = d
            \<and> showAnswer d = d\<lparr>reviewA_hidden := False\<rparr>)"
proof -
  let ?w1 = "\<lparr>pending = tl (pending w),
            sent = sent w @ [(API e @ ''/review/submit'',
               post_json (JObj [(''card_id'', JNum (loaded_cardId d)), (''result'', JStr r)]))]\<rparr>"
  have rv: "review_session (fst (snd (submitResult e r (d, w)))) =
       review_session (fst (snd (loadNext e (d, ?w1))))" if "\<not> api_fails (pending w)"
  proof -
    from that obtain v where a: "api_answer (pending w) = Inr v" by (auto simp: api_fails_not)
    from submitResult_cases [OF assms a, of e r] show ?thesis by blast
  qed
  have hid: "reviewA_hidden (fst (snd (submitResult e r (d, w))))"
    if n: "\<not> api_fails (pending w)" and m: "\<not> api_fails (tl (pending w))"
  proof -
    from m obtain u where "api_answer (tl (pending w)) = Inr u" by (auto simp: api_fails_not)
    then have "api_answer (pending ?w1) = Inr u" by simp
    with rv [OF n] show ?thesis by (simp add: loadNext_eq review_session_def)
  qed
  have next_card: "reviewQ_cardId (fst (snd (submitResult e r (d, w)))) = Some (to_string (field v' ''id''))"
    if n: "\<not> api_fails (pending w)" and b: "api_answer (tl (pending w)) = Inr v'" and t: "truthy v'"
  proof -
    from b have "api_answer (pending ?w1) = Inr v'" by simp
    with rv [OF n] t show ?thesis by (simp add: loadNext_eq review_session_def)
  qed
  have fail: "fst (snd (submitResult e r (showAnswer d, w))) = showAnswer d
            \<and> fst (snd (submitResult e r (d, w))) = d
            \<and> showAnswer d = d\<lparr>reviewA_hidden := False\<rparr>"
    if "api_fails (pending w) \<or> api_fails (tl (pending w))"
    using that by (simp add: submitResult_failure_page showAnswer_def)
  from showAnswer_submitResult_same [OF assms, of e r w v'] hid next_card fail
  show ?thesis by blast
qed

theorem showAnswer_submitResult_witness:
  "num_truthy (loaded_cardId loaded_page)
   \<and> submitResult (app_js id) ''easy'' (showAnswer loaded_page,
        script [json_response JNull, json_response JNull])
     = submitResult (app_js id) ''easy'' (loaded_page,
        script [json_response JNull, json_response JNull])
   \<and> reviewQ_cardId (fst (snd (submitResult (app_js id) ''easy'' (loaded_page,
        script [json_response JNull, json_response JNull])))) = Some []
   \<and> fst (snd (submitResult (app_js id) ''easy'' (showAnswer loaded_page, script [Rejected])))
       = showAnswer loaded_page"
proof -
  have h: "num_truthy (loaded_cardId loaded_page)"
    by (simp add: loaded_cardId_def loaded_page_def js_or_def string_to_number_def trim_def
          is_space_def parse_nat_def digit_val_def)
  have n: "\<not> api_fails (pending (script [json_response JNull, json_response JNull]))"
    "\<not> api_fails (tl (pending (script [json_response JNull, json_response JNull])))"
    "api_answer (tl (pending (script [json_response JNull, json_response JNull]))) = Inr JNull"
    "api_fails (pending (script [Rejected]))"
    by (simp_all add: api_fails_def api_answer_def script_def json_response_def ok_def declares_json_def)
  from showAnswer_submitResult [OF h, of "app_js id" "''easy''"
      "script [json_response JNull, json_response JNull]" JNull] n(1,2,3)
  have e1: "fst (submitResult (app_js id) ''easy'' (showAnswer loaded_page,
        script [json_response JNull, json_response JNull]))
      = fst (submitResult (app_js id) ''easy'' (loaded_page,
        script [json_response JNull, json_response JNull]))"
    and e2: "snd (snd (submitResult (app_js id) ''easy'' (showAnswer loaded_page,
        script [json_response JNull, json_response JNull])))
      = snd (snd (submitResult (app_js id) ''easy'' (loaded_page,
        script [json_response JNull, json_response JNull])))"
    and e3: "fst (snd (submitResult (app_js id) ''easy'' (showAnswer loaded_page,
        script [json_response JNull, json_response JNull])))
      = fst (snd (submitResult (app_js id) ''easy'' (loaded_page,
        script [json_response JNull, json_response JNull])))"
    and e4: "reviewQ_cardId (fst (snd (submitResult (app_js id) ''easy'' (loaded_page,
        script [json_response JNull, json_response JNull])))) = Some []"
    by simp_all
  from showAnswer_submitResult [OF h, of "app_js id" "''easy''" "script [Rejected]"] n(4)
  have e5: "fst (snd (submitResult (app_js id) ''easy'' (showAnswer loaded_page, script [Rejected])))
       = showAnswer loaded_page"
    by blast
  from e1 e2 e3 have "submitResult (app_js id) ''easy'' (showAnswer loaded_page,
        script [json_response JNull, json_response JNull])
     = submitResult (app_js id) ''easy'' (loaded_page,
        script [json_response JNull, json_response JNull])"
    by (simp add: prod_eq_iff)
  with h e4 e5 show ?thesis by blast
qed

section \<open>Failing requests\<close>

text \<open>
  C2 as stated, at a reply whose request is rejected: \<^verbatim>\<open>sendSidekickAnswer\<close> throws,
  and the page keeps the user's turn in the transcript and the emptied input field.
\<close>

theorem sendSidekickAnswer_failure_counterexample:
  "fst (sendSidekickAnswer (app_js id) (active_page, script [Rejected])) = Inl NetworkError
   \<and> chatInput_value active_page = ''because''
   \<and> chatInput_value (fst (snd (sendSidekickAnswer (app_js id) (active_page, script [Rejected])))) = []
   \<and> chatBox_innerHTML active_page = []
   \<and> chatBox_innerHTML (fst (snd (sendSidekickAnswer (app_js id) (active_page, script [Rejected]))))
       = ''<div><b>You:</b> because</div>''
   \<and> fst (snd (sendSidekickAnswer (app_js id) (active_page, script [Rejected]))) \<noteq> active_page"
proof -
  have a: "fst (sendSidekickAnswer (app_js id) (active_page, script [Rejected])) = Inl NetworkError"
    and b: "chatInput_value active_page = ''because''"
    and c: "chatInput_value (fst (snd (sendSidekickAnswer (app_js id) (active_page, script [Rejected])))) = []"
    and d: "chatBox_innerHTML active_page = []"
    and e: "chatBox_innerHTML (fst (snd (sendSidekickAnswer (app_js id) (active_page, script [Rejected]))))
       = ''<div><b>You:</b> because</div>''"
    by (simp_all add: sendSidekickAnswer_def api_eq Let_def app_js_def active_page_def
        empty_page_def script_def api_answer_def trim_def is_space_def)
  from b c have "fst (snd (sendSidekickAnswer (app_js id) (active_page, script [Rejected]))) \<noteq> active_page"
    by auto
  with a b c d e show ?thesis by blast
qed

text \<open>
  C2, amended. When its request fails, \<^verbatim>\<open>loadNext\<close> leaves the page as it was, and so
  does \<^verbatim>\<open>startSidekick\<close>; \<^verbatim>\<open>submitResult\<close> leaves the page as it was when the post
  of the grade fails or the query for the next card after it fails, and once the post has
  succeeded the review session is the one that the query for the next card leaves,
  whatever fails after it. \<^verbatim>\<open>sendSidekickAnswer\<close> writes the user's turn before the
  request: when the request fails, the page is the one before with that turn added to the
  transcript and the input field emptied, and nothing else changed.
\<close>

theorem failed_call_states:
  "(api_fails (pending w) \<longrightarrow> fst (snd (loadNext e (d, w))) = d)
   \<and> (api_fails (pending w) \<or> api_fails (tl (pending w)) \<longrightarrow>
        fst (snd (submitResult e r (d, w))) = d)
   \<and> (num_truthy (loaded_cardId d) \<and> \<not> api_fails (pending w) \<longrightarrow>
        review_session (fst (snd (submitResult e r (d, w)))) =
          review_session (fst (snd (loadNext e (d,
            \<lparr>pending = tl (pending w),
              sent = sent w @ [(API e @ ''/review/submit'',
                post_json (JObj [(''card_id'', JNum (loaded_cardId d)), (''result'', JStr r)]))]\<rparr>)))))
   \<and> (api_fails (pending w) \<longrightarrow> fst (snd (startSidekick e (d, w))) = d)
   \<and> (api_fails (pending w) \<and> truthy (SOC_SESSION d) \<and> trim (chatInput_value d) \<noteq> [] \<longrightarrow>
        fst (snd (sendSidekickAnswer e (d, w)))
          = d\<lparr>chatBox_innerHTML :=
                 chatBox_innerHTML d @ ''<div><b>You:</b> '' @ trim (chatInput_value d) @ ''</div>'',
               chatInput_value := []\<rparr>)"
proof -
  have rv: "review_session (fst (snd (submitResult e r (d, w)))) =
          review_session (fst (snd (loadNext e (d,
            \<lparr>pending = tl (pending w),
              sent = sent w @ [(API e @ ''/review/submit'',
                post_json (JObj [(''card_id'', JNum (loaded_cardId d)), (''result'', JStr r)]))]\<rparr>))))"
    if ld: "num_truthy (loaded_cardId d)" and n: "\<not> api_fails (pending w)"
  proof -
    from n obtain v where a: "api_answer (pending w) = Inr v" by (auto simp: api_fails_not)
    from submitResult_cases [OF ld a, of e r] show ?thesis by blast
  qed
  have l: "fst (snd (loadNext e (d, w'))) = d" if "api_fails (pending w')" for w'
    using that by (auto simp: api_fails_iff loadNext_fails)
  have s: "fst (snd (submitResult e r (d, w))) = d"
    if "api_fails (pending w) \<or> api_fails (tl (pending w))"
  proof (cases "num_truthy (loaded_cardId d)")
    case False
    then show ?thesis by (simp add: submitResult_unloaded)
  next
    case True
    show ?thesis
    proof (cases "api_answer (pending w)")
      case (Inl err)
      with True show ?thesis by (simp add: submitResult_eq)
    next
      case (Inr v)
      then have "\<not> api_fails (pending w)" by (simp add: api_fails_def)
      with that have "api_fails (tl (pending w))" by simp
      then have "fst (snd (loadNext e (d, \<lparr>pending = tl (pending w),
                sent = sent w @ [(API e @ ''/review/submit'',
                   post_json (JObj [(''card_id'', JNum (loaded_cardId d)), (''result'', JStr r)]))]\<rparr>))) = d"
        and "\<exists>err. fst (loadNext e (d, \<lparr>pending = tl (pending w),
                sent = sent w @ [(API e @ ''/review/submit'',
                   post_json (JObj [(''card_id'', JNum (loaded_cardId d)), (''result'', JStr r)]))]\<rparr>)) = Inl err"
        by (auto simp: api_fails_iff loadNext_fails)
      with True Inr show ?thesis
        by (auto simp: submitResult_eq case_prod_beta split: sum.splits)
    qed
  qed
  have st: "fst (snd (startSidekick e (d, w))) = d" if "api_fails (pending w)"
    using that by (auto simp: api_fails_iff startSidekick_def api_eq Let_def)
  have sd: "fst (snd (sendSidekickAnswer e (d, w)))
          = d\<lparr>chatBox_innerHTML :=
                 chatBox_innerHTML d @ ''<div><b>You:</b> '' @ trim (chatInput_value d) @ ''</div>'',
               chatInput_value := []\<rparr>"
    if "api_fails (pending w)" "truthy (SOC_SESSION d)" "trim (chatInput_value d) \<noteq> []"
    using that by (auto simp: api_fails_iff sendSidekickAnswer_def api_eq Let_def)
  from l [of w] s rv st sd show ?thesis by blast
qed

theorem failed_call_states_witness:
  "api_fails [Rejected] \<and> api_fails (tl [json_response JNull, error_response ''down''])
   \<and> fst (snd (loadNext (app_js id) (active_page, script [Rejected]))) = active_page
   \<and> fst (snd (submitResult (app_js id) ''hard'' (active_page\<lparr>reviewQ_cardId := Some ''42''\<rparr>,
              script [json_response JNull, error_response ''down''])))
       = active_page\<lparr>reviewQ_cardId := Some ''42''\<rparr>
   \<and> fst (snd (startSidekick (app_js id) (active_page\<lparr>sidekickTopic_value := ''Cells''\<rparr>, script [Rejected])))
       = active_page\<lparr>sidekickTopic_value := ''Cells''\<rparr>
   \<and> fst (snd (sendSidekickAnswer (app_js id) (active_page, script [Rejected])))
       = active_page\<lparr>chatBox_innerHTML := ''<div><b>You:</b> because</div>'', chatInput_value := []\<rparr>"
  using failed_call_states [where w = "script [Rejected]" and e = "app_js id" and d = active_page]
    failed_call_states [where w = "script [json_response JNull, error_response ''down'']" and e = "app_js id"
      and d = "active_page\<lparr>reviewQ_cardId := Some ''42''\<rparr>" and r = "''hard''"]
    failed_call_states [where w = "script [Rejected]" and e = "app_js id"
      and d = "active_page\<lparr>sidekickTopic_value := ''Cells''\<rparr>"]
  by (simp add: api_fails_def api_answer_def script_def json_response_def error_response_def ok_def
        active_page_def empty_page_def trim_def is_space_def)

section \<open>The same functions under another base address\<close>

lemma relative_to_base [simp]: "relative_to a (a @ p, opts) = Some (p, opts)"
  by (simp add: relative_to_def)

lemma same_requests_step:
  assumes "same_requests a b w1 w2"
  shows "same_requests a b \<lparr>pending = ps, sent = sent w1 @ [(a @ p, opts)]\<rparr>
                           \<lparr>pending = ps, sent = sent w2 @ [(b @ p, opts)]\<rparr>"
proof -
  from assms have m: "map (relative_to a) (sent w1) = map (relative_to b) (sent w2)"
    and n: "None \<notin> set (map (relative_to a) (sent w1))"
    unfolding same_requests_def by blast+
  have "map (relative_to a) (sent w1 @ [(a @ p, opts)]) = map (relative_to b) (sent w2 @ [(b @ p, opts)])"
    using m by simp
  moreover have "None \<notin> set (map (relative_to a) (sent w1 @ [(a @ p, opts)]))"
    using n by simp
  ultimately show ?thesis unfolding same_requests_def world.simps by blast
qed

lemma same_state_cases:
  assumes "same_state a b s1 s2"
  obtains d w1 w2 where "s1 = (d, w1)" "s2 = (d, w2)" "same_requests a b w1 w2" "pending w1 = pending w2"
  using assms by (cases s1; cases s2) (auto simp: same_state_def same_requests_def)

lemma api_sim:
  assumes "same_requests (API e1) (API e2) w1 w2"
  shows "fst (api e1 path opts w1) = fst (api e2 path opts w2)
       \<and> same_requests (API e1) (API e2) (snd (api e1 path opts w1)) (snd (api e2 path opts w2))"
proof -
  from assms have "pending w1 = pending w2" by (simp add: same_requests_def)
  then show ?thesis by (simp add: api_eq same_requests_step [OF assms])
qed

lemma row_html_env: "toLocaleString e1 = toLocaleString e2 \<Longrightarrow> row_html e1 c = row_html e2 c"
  by (simp add: row_html_def)

lemma cards_forEach_env:
  "toLocaleString e1 = toLocaleString e2 \<Longrightarrow> cards_forEach e1 cs d = cards_forEach e2 cs d"
  by (induction cs arbitrary: d) (simp_all add: row_html_env [of e1 e2])

lemma refreshCards_sim:
  assumes "same_state (API e1) (API e2) s1 s2" and "toLocaleString e1 = toLocaleString e2"
  shows "same_modulo_base (API e1) (API e2) (refreshCards e1 s1) (refreshCards e2 s2)"
proof -
  from assms(1) obtain d w1 w2 where s: "s1 = (d, w1)" "s2 = (d, w2)"
    and r: "same_requests (API e1) (API e2) w1 w2" and p: "pending w1 = pending w2"
    by (rule same_state_cases)
  show ?thesis
    unfolding s using p
    by (simp add: refreshCards_def api_eq Let_def cards_forEach_env [OF assms(2)] case_prod_beta
          same_modulo_base_def same_state_def same_requests_step [OF r]
          split: sum.split jsval.split)
qed

lemma refreshStats_sim:
  assumes "same_state (API e1) (API e2) s1 s2"
  shows "same_modulo_base (API e1) (API e2) (refreshStats e1 s1) (refreshStats e2 s2)"
proof -
  from assms(1) obtain d w1 w2 where s: "s1 = (d, w1)" "s2 = (d, w2)"
    and r: "same_requests (API e1) (API e2) w1 w2" and p: "pending w1 = pending w2"
    by (rule same_state_cases)
  show ?thesis
    unfolding s using p
    by (simp add: refreshStats_def api_eq Let_def
          same_modulo_base_def same_state_def same_requests_step [OF r]
          split: sum.split)
qed

lemma loadNext_sim:
  assumes "same_state (API e1) (API e2) s1 s2"
  shows "same_modulo_base (API e1) (API e2) (loadNext e1 s1) (loadNext e2 s2)"
proof -
  from assms(1) obtain d w1 w2 where s: "s1 = (d, w1)" "s2 = (d, w2)"
    and r: "same_requests (API e1) (API e2) w1 w2" and p: "pending w1 = pending w2"
    by (rule same_state_cases)
  show ?thesis
    unfolding s using p
    by (simp add: loadNext_def api_eq Let_def
          same_modulo_base_def same_state_def same_requests_step [OF r]
          split: sum.split)
qed

lemma detached_sim:
  "same_modulo_base a b (f1 s1) (f2 s2) \<Longrightarrow> same_state a b (detached f1 s1) (detached f2 s2)"
  by (simp add: same_modulo_base_def detached_def)

lemma refresh_both_sim:
  assumes "same_state (API e1) (API e2) s1 s2" and "toLocaleString e1 = toLocaleString e2"
  shows "same_state (API e1) (API e2)
           (detached (refreshStats e1) (detached (refreshCards e1) s1))
           (detached (refreshStats e2) (detached (refreshCards e2) s2))"
  by (intro detached_sim refreshStats_sim refreshCards_sim assms)

lemma same_state_step:
  assumes "same_requests a b w1 w2"
  shows "same_state a b (d, \<lparr>pending = ps, sent = sent w1 @ [(a @ p, opts)]\<rparr>)
                        (d, \<lparr>pending = ps, sent = sent w2 @ [(b @ p, opts)]\<rparr>)"
  using same_requests_step [OF assms] by (simp add: same_state_def)

lemma refreshDecks_sim:
  assumes "same_state (API e1) (API e2) s1 s2" and "toLocaleString e1 = toLocaleString e2"
  shows "same_modulo_base (API e1) (API e2) (refreshDecks e1 s1) (refreshDecks e2 s2)"
proof -
  from assms(1) obtain d w1 w2 where s: "s1 = (d, w1)" "s2 = (d, w2)"
    and r: "same_requests (API e1) (API e2) w1 w2" and p: "pending w1 = pending w2"
    by (rule same_state_cases)
  note st = same_state_step [OF r]
  note both = refresh_both_sim [OF st assms(2)]
  show ?thesis
    unfolding s using p
    by (simp add: refreshDecks_def api_eq Let_def same_modulo_base_def st both
          split: sum.split jsval.split prod.split)
qed

lemma refreshDecks_detached_sim:
  assumes "same_state (API e1) (API e2) s1 s2" and "toLocaleString e1 = toLocaleString e2"
  shows "same_state (API e1) (API e2) (detached (refreshDecks e1) s1) (detached (refreshDecks e2) s2)"
  using refreshDecks_sim [OF assms] by (simp add: same_modulo_base_def detached_def)

lemma createDeck_sim:
  assumes "same_state (API e1) (API e2) s1 s2" and "toLocaleString e1 = toLocaleString e2"
  shows "same_modulo_base (API e1) (API e2) (createDeck e1 s1) (createDeck e2 s2)"
proof -
  from assms(1) obtain d w1 w2 where s: "s1 = (d, w1)" "s2 = (d, w2)"
    and r: "same_requests (API e1) (API e2) w1 w2" and p: "pending w1 = pending w2"
    by (rule same_state_cases)
  note st = same_state_step [OF r]
  note decks = refreshDecks_detached_sim [OF st assms(2)]
  show ?thesis
    unfolding s using p assms(1) [unfolded s]
    by (simp add: createDeck_def api_eq Let_def same_modulo_base_def st decks
          split: sum.split)
qed

lemma addCard_sim:
  assumes "same_state (API e1) (API e2) s1 s2" and "toLocaleString e1 = toLocaleString e2"
  shows "same_modulo_base (API e1) (API e2) (addCard e1 s1) (addCard e2 s2)"
proof -
  from assms(1) obtain d w1 w2 where s: "s1 = (d, w1)" "s2 = (d, w2)"
    and r: "same_requests (API e1) (API e2) w1 w2" and p: "pending w1 = pending w2"
    by (rule same_state_cases)
  note st = same_state_step [OF r]
  note both = refresh_both_sim [OF st assms(2)]
  show ?thesis
    unfolding s using p assms(1) [unfolded s]
    by (simp add: addCard_def api_eq Let_def same_modulo_base_def st both
          split: sum.split)
qed

lemma ingestPdf_onclick_sim:
  assumes "same_state (API e1) (API e2) s1 s2" and "toLocaleString e1 = toLocaleString e2"
  shows "same_modulo_base (API e1) (API e2) (ingestPdf_onclick e1 item s1) (ingestPdf_onclick e2 item s2)"
proof -
  from assms(1) obtain d w1 w2 where s: "s1 = (d, w1)" "s2 = (d, w2)"
    and r: "same_requests (API e1) (API e2) w1 w2" and p: "pending w1 = pending w2"
    by (rule same_state_cases)
  note st = same_state_step [OF r]
  note both = refresh_both_sim [OF st assms(2)]
  show ?thesis
    unfolding s using p
    by (simp add: ingestPdf_onclick_def api_eq Let_def same_modulo_base_def st both
          split: sum.split)
qed

lemma fetch_eq:
  "fetch u opts w =
     ((case pending w of [] \<Rightarrow> Inl NetworkError | Rejected # rest \<Rightarrow> Inl NetworkError
       | Responded res # rest \<Rightarrow> Inr res),
      \<lparr>pending = tl (pending w), sent = sent w @ [(u, opts)]\<rparr>)"
  by (cases w) (auto simp: fetch_def split: list.splits outcome.splits)

lemma ingestPdf_sim:
  assumes "same_state (API e1) (API e2) s1 s2"
  shows "same_modulo_base (API e1) (API e2) (ingestPdf e1 s1) (ingestPdf e2 s2)"
proof -
  from assms(1) obtain d w1 w2 where s: "s1 = (d, w1)" "s2 = (d, w2)"
    and r: "same_requests (API e1) (API e2) w1 w2" and p: "pending w1 = pending w2"
    by (rule same_state_cases)
  note st = same_state_step [OF r]
  show ?thesis
    unfolding s using p assms(1) [unfolded s]
    by (simp add: ingestPdf_def fetch_eq same_modulo_base_def st case_prod_beta
          split: sum.split list.split outcome.split option.split jsval.split)
qed

lemma same_modulo_base_cases:
  assumes "same_modulo_base a b x y"
  obtains r s1 s2 where "x = (r, s1)" "y = (r, s2)" "same_state a b s1 s2"
  using assms by (cases x; cases y) (auto simp: same_modulo_base_def)

lemma submitResult_sim:
  assumes "same_state (API e1) (API e2) s1 s2" and "toLocaleString e1 = toLocaleString e2"
  shows "same_modulo_base (API e1) (API e2) (submitResult e1 r s1) (submitResult e2 r s2)"
proof -
  from assms(1) obtain d w1 w2 where s: "s1 = (d, w1)" "s2 = (d, w2)"
    and rq: "same_requests (API e1) (API e2) w1 w2" and p: "pending w1 = pending w2"
    by (rule same_state_cases)
  let ?post = "post_json (JObj [(''card_id'', JNum (loaded_cardId d)), (''result'', JStr r)])"
  let ?w1 = "\<lparr>pending = tl (pending w2), sent = sent w1 @ [(API e1 @ ''/review/submit'', ?post)]\<rparr>"
  let ?w2 = "\<lparr>pending = tl (pending w2), sent = sent w2 @ [(API e2 @ ''/review/submit'', ?post)]\<rparr>"
  have st: "same_state (API e1) (API e2) (d, ?w1) (d, ?w2)" by (rule same_state_step [OF rq])
  from loadNext_sim [OF st] obtain r1 t1 t2 where
    l: "loadNext e1 (d, ?w1) = (r1, t1)" "loadNext e2 (d, ?w2) = (r1, t2)"
    and lt: "same_state (API e1) (API e2) t1 t2" by (rule same_modulo_base_cases)
  from refreshCards_sim [OF lt assms(2)] obtain r2 u1 u2 where
    c: "refreshCards e1 t1 = (r2, u1)" "refreshCards e2 t2 = (r2, u2)"
    and cu: "same_state (API e1) (API e2) u1 u2" by (rule same_modulo_base_cases)
  note fin = refreshStats_sim [OF cu]
  show ?thesis
    unfolding s using p assms(1) [unfolded s] st lt cu fin
    by (simp add: submitResult_def api_eq Let_def l c same_modulo_base_def
          split: sum.split)
qed

lemma same_state_script: "same_state a b (d, script ps) (d, script ps)"
  by (simp add: same_state_def same_requests_def script_def)

lemma env_bases:
  "API (part_000 fmt) = ''http://localhost:8000''" "API (app_js fmt) = ''/api''"
  "toLocaleString (part_000 fmt) = toLocaleString (app_js fmt)"
  by (simp_all add: part_000_def app_js_def)

text \<open>
  C10. \<^verbatim>\<open>api\<close>, \<^verbatim>\<open>refreshDecks\<close>, \<^verbatim>\<open>createDeck\<close>, \<^verbatim>\<open>addCard\<close>, \<^verbatim>\<open>loadNext\<close>,
  \<^verbatim>\<open>submitResult\<close>, \<^verbatim>\<open>ingestPdf\<close> with the handler of its buttons, \<^verbatim>\<open>refreshCards\<close>
  and \<^verbatim>\<open>refreshStats\<close> of \<^verbatim>\<open>src/unnamed/part_000\<close> behave as those of
  \<^verbatim>\<open>src/frontend/app.js\<close> up to the base address: for every page, every argument
  and every script of the backend, the two return or throw the same, leave the same page
  and the same rest of the script, and have sent the same requests in the same order,
  each to the same path under its own base. \<^verbatim>\<open>showAnswer\<close> does not read the base.
\<close>

theorem part_000_same_as_app_js:
  "fst (api (part_000 fmt) path opts (script ps)) = fst (api (app_js fmt) path opts (script ps))
   \<and> same_requests ''http://localhost:8000'' ''/api''
        (snd (api (part_000 fmt) path opts (script ps))) (snd (api (app_js fmt) path opts (script ps)))
   \<and> same_modulo_base ''http://localhost:8000'' ''/api''
        (refreshDecks (part_000 fmt) (d, script ps)) (refreshDecks (app_js fmt) (d, script ps))
   \<and> same_modulo_base ''http://localhost:8000'' ''/api''
        (createDeck (part_000 fmt) (d, script ps)) (createDeck (app_js fmt) (d, script ps))
   \<and> same_modulo_base ''http://localhost:8000'' ''/api''
        (addCard (part_000 fmt) (d, script ps)) (addCard (app_js fmt) (d, script ps))
   \<and> same_modulo_base ''http://localhost:8000'' ''/api''
        (loadNext (part_000 fmt) (d, script ps)) (loadNext (app_js fmt) (d, script ps))
   \<and> same_modulo_base ''http://localhost:8000'' ''/api''
        (submitResult (part_000 fmt) r (d, script ps)) (submitResult (app_js fmt) r (d, script ps))
   \<and> same_modulo_base ''http://localhost:8000'' ''/api''
        (ingestPdf (part_000 fmt) (d, script ps)) (ingestPdf (app_js fmt) (d, script ps))
   \<and> same_modulo_base ''http://localhost:8000'' ''/api''
        (ingestPdf_onclick (part_000 fmt) item (d, script ps))
        (ingestPdf_onclick (app_js fmt) item (d, script ps))
   \<and> same_modulo_base ''http://localhost:8000'' ''/api''
        (refreshCards (part_000 fmt) (d, script ps)) (refreshCards (app_js fmt) (d, script ps))
   \<and> same_modulo_base ''http://localhost:8000'' ''/api''
        (refreshStats (part_000 fmt) (d, script ps)) (refreshStats (app_js fmt) (d, script ps))"
proof -
  let ?P = "part_000 fmt" and ?A = "app_js fmt"
  have st: "same_state (API ?P) (API ?A) (d, script ps) (d, script ps)"
    by (rule same_state_script)
  have rq: "same_requests (API ?P) (API ?A) (script ps) (script ps)"
    using st by (simp add: same_state_def)
  note fm = env_bases(3) [of fmt]
  show ?thesis
    using api_sim [OF rq, of path opts] refreshDecks_sim [OF st fm] createDeck_sim [OF st fm]
      addCard_sim [OF st fm] loadNext_sim [OF st] submitResult_sim [OF st fm, of r]
      ingestPdf_sim [OF st] ingestPdf_onclick_sim [OF st fm, of item]
      refreshCards_sim [OF st fm] refreshStats_sim [OF st]
    unfolding env_bases(1,2) by blast
qed

theorem part_000_same_as_app_js_witness:
  "map (relative_to ''/api'')
       (sent (snd (snd (loadNext (app_js id) (empty_page, script [json_response JNull])))))
     = [Some (''/review/next?deck_id=0'', no_opts)]
   \<and> map (relative_to ''http://localhost:8000'')
       (sent (snd (snd (loadNext (part_000 id) (empty_page, script [json_response JNull])))))
     = [Some (''/review/next?deck_id=0'', no_opts)]
   \<and> fst (snd (loadNext (part_000 id) (empty_page, script [json_response JNull])))
     = fst (snd (loadNext (app_js id) (empty_page, script [json_response JNull])))"
proof -
  have a: "map (relative_to ''/api'')
       (sent (snd (snd (loadNext (app_js id) (empty_page, script [json_response JNull])))))
     = [Some (''/review/next?deck_id=0'', no_opts)]"
    by (simp add: loadNext_def api_eq Let_def app_js_def empty_page_def script_def
          string_to_number_def trim_def num_to_string_def show_int_def show_nat.simps digit_char_def
          form_encode_def form_encode_byte_def form_keep_def relative_to_def
          api_answer_def json_response_def ok_def declares_json_def)
  from part_000_same_as_app_js [of id _ _ "[json_response JNull]" empty_page]
  have "same_modulo_base ''http://localhost:8000'' ''/api''
        (loadNext (part_000 id) (empty_page, script [json_response JNull]))
        (loadNext (app_js id) (empty_page, script [json_response JNull]))"
    by blast
  with a show ?thesis by (simp add: same_modulo_base_def same_state_def same_requests_def)
qed

end
